theory Spec2Isabelle
  imports Complex_Main "HOL-Library.Finite_Map"
begin

section \<open>Wire values\<close>

text \<open>
  Untyped JSON as the generated client sees it. A JavaScript object has each key at most
  once and no key order that matters to equality of payloads, hence a finite map.
\<close>

datatype json =
    JNull
  | JBool bool
  | JNum real
  | JStr string
  | JArr "json list"
  | JObj "(string, json) fmap"

section \<open>The generated client \<^verbatim>\<open>SystemUsage\<close>\<close>

subsection \<open>Configuration\<close>

text \<open>
  \<^verbatim>\<open>core.Supplier<T>\<close> is a value, a promise or a function giving one; the class resolves it
  with \<^verbatim>\<open>await core.Supplier.get(...)\<close>, possibly several times in one call. A supplier is
  the result of its \<open>k\<close>-th resolution within the call, \<open>None\<close> for \<^verbatim>\<open>null\<close> and
  \<^verbatim>\<open>undefined\<close>; a pinned value is a constant function and an option that was never set
  is \<open>\<lambda>_. None\<close>.
\<close>

type_synonym 'a Supplier = "nat \<Rightarrow> 'a option"

text \<open>\<^verbatim>\<open>SystemUsage.Options\<close>\<close>

record Options =
  environment :: "string Supplier"
  apiKey :: "string Supplier"
  workspaceName :: "string Supplier"

text \<open>
  A JavaScript number is a double. The type of numbers is the parameter \<open>'n\<close>; an option
  that holds one may hold any number, \<^verbatim>\<open>NaN\<close> and the infinities included.
\<close>

text \<open>
  \<^verbatim>\<open>SystemUsage.RequestOptions\<close>; every field is optional. The per-call \<^verbatim>\<open>apiKey\<close> and
  \<^verbatim>\<open>workspaceName\<close> are declared by the interface (here \<open>apiKeyOverride\<close>,
  \<open>workspaceNameOverride\<close>: the field names are taken by \<open>Options\<close>) and read by no method
  of the class.
\<close>

record ('sig, 'n) RequestOptions =
  timeoutInSeconds :: "'n option"
  maxRetries :: "'n option"
  abortSignal :: "'sig option"
  apiKeyOverride :: "string option"
  workspaceNameOverride :: "string option"
  headers :: "(string \<rightharpoonup> string) option"

text \<open>
  What the class takes from outside itself: the default environment
  \<^verbatim>\<open>environments.OpikApiEnvironment.Default\<close>, \<^verbatim>\<open>core.RUNTIME\<close>, the \<^verbatim>\<open>url-join\<close> package, and
  the arithmetic of the language: the product \<^verbatim>\<open>*\<close> of two numbers (the product of doubles,
  rounded as IEEE 754 rounds it) and the number that an integer literal denotes.
\<close>

record 'n Imports =
  OpikApiEnvironment_Default :: string
  RUNTIME_type :: string
  RUNTIME_version :: string
  urlJoin :: "string \<Rightarrow> string \<Rightarrow> string"
  multiply :: "'n \<Rightarrow> 'n \<Rightarrow> 'n"
  numberOf :: "nat \<Rightarrow> 'n"

subsection \<open>The request handed to \<^verbatim>\<open>core.fetcher\<close>\<close>

text \<open>
  A header value is a string or \<^verbatim>\<open>undefined\<close> (\<open>None\<close>); the header object maps a key that
  the literal mentions to its value, a later entry of the literal replacing an earlier one.
\<close>

type_synonym HeaderObject = "string \<rightharpoonup> string option"

record ('sig, 'n) FetcherArgs =
  url :: string
  httpMethod :: string
  requestHeaders :: HeaderObject
  contentType :: string
  requestType :: string
  timeoutMs :: 'n
  argMaxRetries :: "'n option"
  withCredentials :: bool
  argAbortSignal :: "'sig option"

text \<open>\<^verbatim>\<open>_getCustomAuthorizationHeaders\<close>\<close>

definition getCustomAuthorizationHeaders :: "Options \<Rightarrow> HeaderObject" where
  "getCustomAuthorizationHeaders opts = [''Authorization'' \<mapsto> apiKey opts 0]"

text \<open>
  The value of the \<^verbatim>\<open>"Comet-Workspace"\<close> entry: the supplier is resolved once for the test
  \<^verbatim>\<open>!= null\<close> and a second time for the value.
\<close>

definition cometWorkspace :: "Options \<Rightarrow> string option" where
  "cometWorkspace opts =
     (if workspaceName opts 0 \<noteq> None then workspaceName opts 1 else None)"

text \<open>\<^verbatim>\<open>...requestOptions?.headers\<close>: spreading \<^verbatim>\<open>undefined\<close> adds nothing.\<close>

definition spreadHeaders :: "('sig, 'n) RequestOptions option \<Rightarrow> HeaderObject" where
  "spreadHeaders requestOptions =
     (case Option.bind requestOptions headers of
        None \<Rightarrow> Map.empty
      | Some h \<Rightarrow> (\<lambda>k. map_option Some (h k)))"

definition headerObject ::
  "'n Imports \<Rightarrow> Options \<Rightarrow> ('sig, 'n) RequestOptions option \<Rightarrow> HeaderObject" where
  "headerObject imp opts requestOptions =
     [''Comet-Workspace'' \<mapsto> cometWorkspace opts,
      ''X-Fern-Language'' \<mapsto> Some ''JavaScript'',
      ''X-Fern-Runtime'' \<mapsto> Some (RUNTIME_type imp),
      ''X-Fern-Runtime-Version'' \<mapsto> Some (RUNTIME_version imp)]
     ++ getCustomAuthorizationHeaders opts
     ++ spreadHeaders requestOptions"

text \<open>The argument of \<^verbatim>\<open>core.fetcher\<close>, the same in the four methods but for the path.\<close>

definition fetcherArgs ::
  "'n Imports \<Rightarrow> Options \<Rightarrow> ('sig, 'n) RequestOptions option \<Rightarrow> string \<Rightarrow>
     ('sig, 'n) FetcherArgs" where
  "fetcherArgs imp opts requestOptions path =
     \<lparr> url = urlJoin imp
               (case environment opts 0 of
                  Some e \<Rightarrow> e
                | None \<Rightarrow> OpikApiEnvironment_Default imp)
               path,
       httpMethod = ''GET'',
       requestHeaders = headerObject imp opts requestOptions,
       contentType = ''application/json'',
       requestType = ''json'',
       timeoutMs =
         (case Option.bind requestOptions timeoutInSeconds of
            Some t \<Rightarrow> multiply imp t (numberOf imp 1000)
          | None \<Rightarrow> numberOf imp 60000),
       argMaxRetries = Option.bind requestOptions maxRetries,
       withCredentials = True,
       argAbortSignal = Option.bind requestOptions abortSignal \<rparr>"

subsection \<open>The response and what the method makes of it\<close>

text \<open>
  The failure object of \<^verbatim>\<open>core.fetcher\<close> as the methods read it: they compare
  \<^verbatim>\<open>error.reason\<close> with string literals and read \<^verbatim>\<open>statusCode\<close>, \<^verbatim>\<open>body\<close>, \<^verbatim>\<open>rawBody\<close> and
  \<^verbatim>\<open>errorMessage\<close>, each \<^verbatim>\<open>undefined\<close> (\<open>None\<close>) where the object has no such property.
\<close>

record FetcherError =
  reason :: string
  statusCode :: "int option"
  errorBody :: "json option"
  rawBody :: "string option"
  errorMessage :: "string option"

datatype APIResponse =
    SuccessfulResponse json "string \<rightharpoonup> string"
  | FailedResponse FetcherError

text \<open>The options every method passes to \<^verbatim>\<open>parseOrThrow\<close>.\<close>

datatype UnrecognizedObjectKeys = Strict | Passthrough

record ParseOptions =
  unrecognizedObjectKeys :: UnrecognizedObjectKeys
  allowUnrecognizedUnionMembers :: bool
  allowUnrecognizedEnumValues :: bool
  breadcrumbsPrefix :: "string list"

definition responseParseOptions :: ParseOptions where
  "responseParseOptions =
     \<lparr> unrecognizedObjectKeys = Passthrough,
       allowUnrecognizedUnionMembers = True,
       allowUnrecognizedEnumValues = True,
       breadcrumbsPrefix = [''response''] \<rparr>"

text \<open>A validation failure: where in the document, and what is wrong there.\<close>

type_synonym ValidationError = "string list \<times> string"

text \<open>
  The errors a method raises: \<^verbatim>\<open>errors.OpikApiError({statusCode, body, message})\<close>,
  \<^verbatim>\<open>errors.OpikApiTimeoutError(message)\<close>, and what \<^verbatim>\<open>parseOrThrow\<close> throws. A raw body is a
  JavaScript string, \<open>JStr\<close>.
\<close>

datatype Error =
    OpikApiError "int option" "json option" "string option"
  | OpikApiTimeoutError string
  | ParseError "ValidationError list"

text \<open>
  How the \<^verbatim>\<open>async\<close> function handed to \<^verbatim>\<open>core.APIPromise.from\<close> ends: it returns
  \<^verbatim>\<open>{ok, body, headers}\<close>, it throws, or it runs off its end and returns \<^verbatim>\<open>undefined\<close>.
\<close>

datatype 't Outcome =
    Returned bool 't "string \<rightharpoonup> string"
  | Thrown Error
  | ReturnedUndefined

type_synonym 't Parser = "json \<Rightarrow> ParseOptions \<Rightarrow> ValidationError list + 't"

definition handleResponse :: "'t Parser \<Rightarrow> string \<Rightarrow> APIResponse \<Rightarrow> 't Outcome" where
  "handleResponse parseOrThrow path response =
     (case response of
        SuccessfulResponse body hdrs \<Rightarrow>
          (case parseOrThrow body responseParseOptions of
             Inl errs \<Rightarrow> Thrown (ParseError errs)
           | Inr typed \<Rightarrow> Returned True typed hdrs)
      | FailedResponse err \<Rightarrow>
          if reason err = ''status-code'' then
            Thrown (OpikApiError (statusCode err) (errorBody err) None)
          else if reason err = ''non-json'' then
            Thrown (OpikApiError (statusCode err) (map_option JStr (rawBody err)) None)
          else if reason err = ''timeout'' then
            Thrown (OpikApiTimeoutError
              (''Timeout exceeded when calling GET /'' @ path @ ''.''))
          else if reason err = ''unknown'' then
            Thrown (OpikApiError None None (errorMessage err))
          else ReturnedUndefined)"

text \<open>
  One method: build the request, await the fetcher, handle its response. The fetcher
  \<^verbatim>\<open>core.fetcher\<close> and the response schema's \<^verbatim>\<open>parseOrThrow\<close> are parameters.
\<close>

definition systemUsageMethod ::
  "string \<Rightarrow> 'n Imports \<Rightarrow> Options \<Rightarrow> (('sig, 'n) FetcherArgs \<Rightarrow> APIResponse) \<Rightarrow>
     't Parser \<Rightarrow> ('sig, 'n) RequestOptions option \<Rightarrow> 't Outcome" where
  "systemUsageMethod path imp opts fetcher parseOrThrow requestOptions =
     handleResponse parseOrThrow path (fetcher (fetcherArgs imp opts requestOptions path))"


definition getExperimentBiInfo ::
  "'n Imports \<Rightarrow> Options \<Rightarrow> (('sig, 'n) FetcherArgs \<Rightarrow> APIResponse) \<Rightarrow> 't Parser \<Rightarrow>
     ('sig, 'n) RequestOptions option \<Rightarrow> 't Outcome" where
  "getExperimentBiInfo = systemUsageMethod ''v1/internal/usage/bi-experiments''"

definition getTracesBiInfo ::
  "'n Imports \<Rightarrow> Options \<Rightarrow> (('sig, 'n) FetcherArgs \<Rightarrow> APIResponse) \<Rightarrow> 't Parser \<Rightarrow>
     ('sig, 'n) RequestOptions option \<Rightarrow> 't Outcome" where
  "getTracesBiInfo = systemUsageMethod ''v1/internal/usage/bi-traces''"

definition getTracesCountForWorkspaces ::
  "'n Imports \<Rightarrow> Options \<Rightarrow> (('sig, 'n) FetcherArgs \<Rightarrow> APIResponse) \<Rightarrow> 't Parser \<Rightarrow>
     ('sig, 'n) RequestOptions option \<Rightarrow> 't Outcome" where
  "getTracesCountForWorkspaces = systemUsageMethod ''v1/internal/usage/workspace-trace-counts''"

section \<open>Schemas\<close>

text \<open>
  The schema combinators of \<^verbatim>\<open>core.serialization\<close> that the generated serializers use:
  \<^verbatim>\<open>string()\<close>, \<^verbatim>\<open>number()\<close>, \<^verbatim>\<open>boolean()\<close>, \<^verbatim>\<open>enum_([...])\<close>, \<^verbatim>\<open>object({...})\<close>, \<^verbatim>\<open>list(...)\<close> and
  the undiscriminated union; a property of an object is required or optional.
\<close>

datatype Schema =
    SString
  | SNumber
  | SBoolean
  | SEnum "string list"
  | SObject "(string \<times> Field) list"
  | SList Schema
  | SUnion "Schema list"
and Field = required Schema | optional Schema

text \<open>
  Modelled from the spec: the typed in-memory values that \<^verbatim>\<open>parse\<close> produces (the types
  of \<^verbatim>\<open>OpikApi\<close> are not among the sources): an object carries its declared fields and
  the side bag of unknown keys, a union value the index of the alternative that matched,
  or the raw value kept as an opaque variant.
\<close>

datatype Typed =
    TString string
  | TNumber real
  | TBoolean bool
  | TEnum string
  | TObject "(string, Typed) fmap" "(string, json) fmap"
  | TList "Typed list"
  | TVariant nat Typed
  | TOpaque json

text \<open>The generated serializers of the repository.\<close>

definition DatasetItemSource :: Schema where
  "DatasetItemSource = SEnum [''manual'', ''trace'', ''span'', ''sdk'']"

definition LlmAsJudgeOutputSchemaWriteType :: Schema where
  "LlmAsJudgeOutputSchemaWriteType = SEnum [''BOOLEAN'', ''INTEGER'', ''DOUBLE'']"

definition FeedbackScorePublicSource :: Schema where
  "FeedbackScorePublicSource = SEnum [''ui'', ''sdk'']"

definition NumericalFeedbackDetailUpdate :: Schema where
  "NumericalFeedbackDetailUpdate =
     SObject [(''max'', required SNumber), (''min'', required SNumber)]"

text \<open>
  An object literal has each key once, so a schema built by \<^verbatim>\<open>object({...})\<close> declares each
  key once, at every depth.
\<close>

primrec wellFormed :: "Schema \<Rightarrow> bool" and wellFormedField :: "Field \<Rightarrow> bool" where
  "wellFormed SString = True"
| "wellFormed SNumber = True"
| "wellFormed SBoolean = True"
| "wellFormed (SEnum allowed) = True"
| "wellFormed (SObject props) =
     (distinct (map fst props) \<and> list_all snd (map (map_prod id wellFormedField) props))"
| "wellFormed (SList item) = wellFormed item"
| "wellFormed (SUnion alternatives) = list_all id (map wellFormed alternatives)"
| "wellFormedField (required s) = wellFormed s"
| "wellFormedField (optional s) = wellFormed s"

section \<open>The schema engine\<close>

text \<open>The decimal numeral of a list index, as a breadcrumb.\<close>

definition digitChar :: "nat \<Rightarrow> char" where
  "digitChar d = char_of (48 + d)"

fun decimal :: "nat \<Rightarrow> string" where
  "decimal n = (if n < 10 then [digitChar n] else decimal (n div 10) @ [digitChar (n mod 10)])"

declare decimal.simps [simp del]

text \<open>
  Modelled from the spec: the module \<^verbatim>\<open>core.serialization\<close> (the functions behind
  \<^verbatim>\<open>parseOrThrow\<close>) is not among the sources. Section 4.2 of the specification is followed
  sentence by sentence: an object needs every declared required field present and each
  present declared field valid, unknown keys are dropped silently in strict mode and kept
  in a side bag in passthrough mode; an enum accepts the closed set in strict mode and any
  string, verbatim, in permissive mode; a union takes the first alternative, in
  declaration order, that matches, and in permissive mode keeps an unmatched value as an
  opaque raw variant; a failure is a list of (breadcrumb, message) pairs, one pass
  reporting every mistake of an object. The breadcrumb is the path of field names from the
  document root, after the prefix of the call; an item of a list is named by its index.
\<close>

function (sequential)
    parseAt :: "ParseOptions \<Rightarrow> string list \<Rightarrow> Schema \<Rightarrow> json \<Rightarrow> ValidationError list + Typed"
and parseFields :: "ParseOptions \<Rightarrow> string list \<Rightarrow> (string \<times> Field) list \<Rightarrow> (string, json) fmap \<Rightarrow>
      ValidationError list \<times> (string \<times> Typed) list"
and parseItems :: "ParseOptions \<Rightarrow> string list \<Rightarrow> Schema \<Rightarrow> nat \<Rightarrow> json list \<Rightarrow>
      ValidationError list \<times> Typed list"
and parseAlternatives :: "ParseOptions \<Rightarrow> string list \<Rightarrow> Schema list \<Rightarrow> nat \<Rightarrow> json \<Rightarrow> (nat \<times> Typed) option"
where
  "parseAt opts crumbs SString raw =
     (case raw of JStr s \<Rightarrow> Inr (TString s) | _ \<Rightarrow> Inl [(crumbs, ''expected a string'')])"
| "parseAt opts crumbs SNumber raw =
     (case raw of JNum x \<Rightarrow> Inr (TNumber x) | _ \<Rightarrow> Inl [(crumbs, ''expected a number'')])"
| "parseAt opts crumbs SBoolean raw =
     (case raw of JBool b \<Rightarrow> Inr (TBoolean b) | _ \<Rightarrow> Inl [(crumbs, ''expected a boolean'')])"
| "parseAt opts crumbs (SEnum allowed) raw =
     (case raw of
        JStr s \<Rightarrow>
          if s \<in> set allowed \<or> allowUnrecognizedEnumValues opts then Inr (TEnum s)
          else Inl [(crumbs, ''unrecognized enum value'')]
      | _ \<Rightarrow> Inl [(crumbs, ''expected an enum string'')])"
| "parseAt opts crumbs (SObject props) raw =
     (case raw of
        JObj m \<Rightarrow>
          (case parseFields opts crumbs props m of
             (errs, entries) \<Rightarrow>
               if errs = [] then
                 Inr (TObject (fmap_of_list entries)
                        (case unrecognizedObjectKeys opts of
                           Passthrough \<Rightarrow> fmdrop_set (set (map fst props)) m
                         | Strict \<Rightarrow> fmempty))
               else Inl errs)
      | _ \<Rightarrow> Inl [(crumbs, ''expected an object'')])"
| "parseAt opts crumbs (SList item) raw =
     (case raw of
        JArr xs \<Rightarrow>
          (case parseItems opts crumbs item 0 xs of
             (errs, items) \<Rightarrow> if errs = [] then Inr (TList items) else Inl errs)
      | _ \<Rightarrow> Inl [(crumbs, ''expected a list'')])"
| "parseAt opts crumbs (SUnion alternatives) raw =
     (case parseAlternatives opts crumbs alternatives 0 raw of
        Some (i, t) \<Rightarrow> Inr (TVariant i t)
      | None \<Rightarrow>
          if allowUnrecognizedUnionMembers opts then Inr (TOpaque raw)
          else Inl [(crumbs, ''no union member matches'')])"
| "parseFields opts crumbs [] m = ([], [])"
| "parseFields opts crumbs ((k, required s) # props) m =
     (case parseFields opts crumbs props m of
        (errs, entries) \<Rightarrow>
          (case fmlookup m k of
             None \<Rightarrow> ((crumbs @ [k], ''missing required key'') # errs, entries)
           | Some v \<Rightarrow>
               (case parseAt opts (crumbs @ [k]) s v of
                  Inl es \<Rightarrow> (es @ errs, entries)
                | Inr t \<Rightarrow> (errs, (k, t) # entries))))"
| "parseFields opts crumbs ((k, optional s) # props) m =
     (case parseFields opts crumbs props m of
        (errs, entries) \<Rightarrow>
          (case fmlookup m k of
             None \<Rightarrow> (errs, entries)
           | Some v \<Rightarrow>
               (case parseAt opts (crumbs @ [k]) s v of
                  Inl es \<Rightarrow> (es @ errs, entries)
                | Inr t \<Rightarrow> (errs, (k, t) # entries))))"
| "parseItems opts crumbs item i [] = ([], [])"
| "parseItems opts crumbs item i (x # xs) =
     (case parseItems opts crumbs item (Suc i) xs of
        (errs, items) \<Rightarrow>
          (case parseAt opts (crumbs @ [decimal i]) item x of
             Inl es \<Rightarrow> (es @ errs, items)
           | Inr t \<Rightarrow> (errs, t # items)))"
| "parseAlternatives opts crumbs [] i raw = None"
| "parseAlternatives opts crumbs (s # alternatives) i raw =
     (case parseAt opts crumbs s raw of
        Inr t \<Rightarrow> Some (i, t)
      | Inl _ \<Rightarrow> parseAlternatives opts crumbs alternatives (Suc i) raw)"

  by pat_completeness auto

termination
  by (relation "inv_image (less_than <*lex*> less_than)
        (\<lambda>x. case x of
           Inl (Inl (opts, crumbs, s, raw)) \<Rightarrow> (2 * size s, 0)
         | Inl (Inr (opts, crumbs, props, m)) \<Rightarrow>
             (2 * size_list (size_prod (\<lambda>_. 0) size) props + 1, 0)
         | Inr (Inl (opts, crumbs, item, i, xs)) \<Rightarrow> (2 * size item + 1, length xs)
         | Inr (Inr (opts, crumbs, alternatives, i, raw)) \<Rightarrow>
             (2 * size_list size alternatives + 1, 0))")
     auto

text \<open>
  Modelled from the spec: \<^verbatim>\<open>parse(raw, context)\<close>, the context being the strictness flags
  and the breadcrumb prefix of the call.
\<close>

definition parse :: "Schema \<Rightarrow> Typed Parser" where
  "parse schema raw opts = parseAt opts (breadcrumbsPrefix opts) schema raw"

text \<open>
  Modelled from the spec: \<^verbatim>\<open>serialize(typed, context)\<close>, the inverse mapping under the same
  strictness flags: a declared field is written under its key, the side bag of unknown keys
  is written back in passthrough mode, an opaque union variant is written back verbatim in
  permissive mode.
\<close>

function (sequential)
    serializeAt :: "ParseOptions \<Rightarrow> string list \<Rightarrow> Schema \<Rightarrow> Typed \<Rightarrow> ValidationError list + json"
and serializeFields :: "ParseOptions \<Rightarrow> string list \<Rightarrow> (string \<times> Field) list \<Rightarrow> (string, Typed) fmap \<Rightarrow>
      ValidationError list \<times> (string \<times> json) list"
and serializeItems :: "ParseOptions \<Rightarrow> string list \<Rightarrow> Schema \<Rightarrow> nat \<Rightarrow> Typed list \<Rightarrow>
      ValidationError list \<times> json list"
and serializeAlternative :: "ParseOptions \<Rightarrow> string list \<Rightarrow> Schema list \<Rightarrow> nat \<Rightarrow> Typed \<Rightarrow>
      ValidationError list + json"
where
  "serializeAt opts crumbs SString typed =
     (case typed of TString s \<Rightarrow> Inr (JStr s) | _ \<Rightarrow> Inl [(crumbs, ''expected a string'')])"
| "serializeAt opts crumbs SNumber typed =
     (case typed of TNumber x \<Rightarrow> Inr (JNum x) | _ \<Rightarrow> Inl [(crumbs, ''expected a number'')])"
| "serializeAt opts crumbs SBoolean typed =
     (case typed of TBoolean b \<Rightarrow> Inr (JBool b) | _ \<Rightarrow> Inl [(crumbs, ''expected a boolean'')])"
| "serializeAt opts crumbs (SEnum allowed) typed =
     (case typed of
        TEnum s \<Rightarrow>
          if s \<in> set allowed \<or> allowUnrecognizedEnumValues opts then Inr (JStr s)
          else Inl [(crumbs, ''unrecognized enum value'')]
      | _ \<Rightarrow> Inl [(crumbs, ''expected an enum string'')])"
| "serializeAt opts crumbs (SObject props) typed =
     (case typed of
        TObject entries extra \<Rightarrow>
          (case serializeFields opts crumbs props entries of
             (errs, raws) \<Rightarrow>
               if errs = [] then
                 Inr (JObj ((case unrecognizedObjectKeys opts of
                               Passthrough \<Rightarrow> extra
                             | Strict \<Rightarrow> fmempty) ++\<^sub>f fmap_of_list raws))
               else Inl errs)
      | _ \<Rightarrow> Inl [(crumbs, ''expected an object'')])"
| "serializeAt opts crumbs (SList item) typed =
     (case typed of
        TList ts \<Rightarrow>
          (case serializeItems opts crumbs item 0 ts of
             (errs, raws) \<Rightarrow> if errs = [] then Inr (JArr raws) else Inl errs)
      | _ \<Rightarrow> Inl [(crumbs, ''expected a list'')])"
| "serializeAt opts crumbs (SUnion alternatives) typed =
     (case typed of
        TVariant i t \<Rightarrow> serializeAlternative opts crumbs alternatives i t
      | TOpaque raw \<Rightarrow>
          if allowUnrecognizedUnionMembers opts then Inr raw
          else Inl [(crumbs, ''no union member matches'')]
      | _ \<Rightarrow> Inl [(crumbs, ''expected a union member'')])"
| "serializeFields opts crumbs [] entries = ([], [])"
| "serializeFields opts crumbs ((k, required s) # props) entries =
     (case serializeFields opts crumbs props entries of
        (errs, raws) \<Rightarrow>
          (case fmlookup entries k of
             None \<Rightarrow> ((crumbs @ [k], ''missing required key'') # errs, raws)
           | Some t \<Rightarrow>
               (case serializeAt opts (crumbs @ [k]) s t of
                  Inl es \<Rightarrow> (es @ errs, raws)
                | Inr v \<Rightarrow> (errs, (k, v) # raws))))"
| "serializeFields opts crumbs ((k, optional s) # props) entries =
     (case serializeFields opts crumbs props entries of
        (errs, raws) \<Rightarrow>
          (case fmlookup entries k of
             None \<Rightarrow> (errs, raws)
           | Some t \<Rightarrow>
               (case serializeAt opts (crumbs @ [k]) s t of
                  Inl es \<Rightarrow> (es @ errs, raws)
                | Inr v \<Rightarrow> (errs, (k, v) # raws))))"
| "serializeItems opts crumbs item i [] = ([], [])"
| "serializeItems opts crumbs item i (t # ts) =
     (case serializeItems opts crumbs item (Suc i) ts of
        (errs, raws) \<Rightarrow>
          (case serializeAt opts (crumbs @ [decimal i]) item t of
             Inl es \<Rightarrow> (es @ errs, raws)
           | Inr v \<Rightarrow> (errs, v # raws)))"
| "serializeAlternative opts crumbs [] i t = Inl [(crumbs, ''no such union member'')]"
| "serializeAlternative opts crumbs (s # alternatives) 0 t = serializeAt opts crumbs s t"
| "serializeAlternative opts crumbs (s # alternatives) (Suc i) t =
     serializeAlternative opts crumbs alternatives i t"
  by pat_completeness auto

termination
  by (relation "inv_image (less_than <*lex*> less_than)
        (\<lambda>x. case x of
           Inl (Inl (opts, crumbs, s, t)) \<Rightarrow> (2 * size s, 0)
         | Inl (Inr (opts, crumbs, props, entries)) \<Rightarrow>
             (2 * size_list (size_prod (\<lambda>_. 0) size) props + 1, 0)
         | Inr (Inl (opts, crumbs, item, i, ts)) \<Rightarrow> (2 * size item + 1, length ts)
         | Inr (Inr (opts, crumbs, alternatives, i, t)) \<Rightarrow>
             (2 * size_list size alternatives + 1, 0))")
     auto

definition serialize :: "Schema \<Rightarrow> Typed \<Rightarrow> ParseOptions \<Rightarrow> ValidationError list + json" where
  "serialize schema typed opts = serializeAt opts (breadcrumbsPrefix opts) schema typed"

section \<open>The request executor\<close>

text \<open>
  Modelled from the spec: \<^verbatim>\<open>core.fetcher\<close> is not among the sources; what follows is
  section 4.3 of the specification. The cancellation token fires at most once: before an
  attempt starts, or while an attempt is in flight (attempts are counted from 0).
\<close>

datatype AbortSignal = NeverFires | FiresBeforeAttempt nat | FiresDuringAttempt nat

text \<open>Modelled from the spec: the token as checked before attempt \<open>k\<close>.\<close>

definition firedBefore :: "AbortSignal option \<Rightarrow> nat \<Rightarrow> bool" where
  "firedBefore signal k =
     (case signal of
        Some (FiresBeforeAttempt j) \<Rightarrow> j \<le> k
      | Some (FiresDuringAttempt j) \<Rightarrow> j < k
      | _ \<Rightarrow> False)"

text \<open>
  Modelled from the spec: the token fires while attempt \<open>k\<close> is in flight, before the
  transport responds, and the transport aborts the operation.
\<close>

definition firesDuring :: "AbortSignal option \<Rightarrow> nat \<Rightarrow> bool" where
  "firesDuring signal k = (signal = Some (FiresDuringAttempt k))"


text \<open>
  Modelled from the spec: the transport capability answers a request with a response
  (status, headers, body) or a transport failure, or not at all before the deadline of the
  attempt.
\<close>

datatype TransportResult =
    Response int "string \<rightharpoonup> string" string
  | TransportFailure string
  | NoResponse

text \<open>
  Modelled from the spec: what the executor is polymorphic over: the transport (its answer
  to the \<open>k\<close>-th attempt), the configurable set of retryable status codes, the decoder
  of a body, and the count of retries that a \<^verbatim>\<open>maxRetries\<close> number allows.
\<close>

record 'n Transport =
  send :: "nat \<Rightarrow> (AbortSignal, 'n) FetcherArgs \<Rightarrow> TransportResult"
  retryableStatus :: "int \<Rightarrow> bool"
  decodeJson :: "string \<Rightarrow> json option"
  retriesAllowed :: "'n \<Rightarrow> nat"

text \<open>Modelled from the spec: a success status, as opposed to a non-success status.\<close>

definition isSuccessStatus :: "int \<Rightarrow> bool" where
  "isSuccessStatus status = (200 \<le> status \<and> status < 300)"

text \<open>
  Modelled from the spec: a retryable failure is a transport-level failure (a deadline that
  passes included) or a response whose status is in the configured set.
\<close>

definition retryable :: "'n Transport \<Rightarrow> TransportResult \<Rightarrow> bool" where
  "retryable t r =
     (case r of
        Response status hdrs body \<Rightarrow> \<not> isSuccessStatus status \<and> retryableStatus t status
      | TransportFailure msg \<Rightarrow> True
      | NoResponse \<Rightarrow> True)"

text \<open>Modelled from the spec: a failure of the given reason with no detail yet.\<close>

definition failure :: "string \<Rightarrow> FetcherError" where
  "failure r =
     \<lparr> reason = r, statusCode = None, errorBody = None, rawBody = None,
       errorMessage = None \<rparr>"

text \<open>Modelled from the spec: the output of the executor for the answer it settles on.\<close>

definition classify :: "'n Transport \<Rightarrow> TransportResult \<Rightarrow> APIResponse" where
  "classify t r =
     (case r of
        Response status hdrs body \<Rightarrow>
          if isSuccessStatus status then
            (case decodeJson t body of
               Some j \<Rightarrow> SuccessfulResponse j hdrs
             | None \<Rightarrow>
                 FailedResponse
                   ((failure ''non-json'') \<lparr> statusCode := Some status, rawBody := Some body \<rparr>))
          else
            FailedResponse
              ((failure ''status-code'')
                 \<lparr> statusCode := Some status,
                   errorBody := Some (case decodeJson t body of
                                        Some j \<Rightarrow> j
                                      | None \<Rightarrow> JStr body) \<rparr>)
      | TransportFailure msg \<Rightarrow>
          FailedResponse ((failure ''unknown'') \<lparr> errorMessage := Some msg \<rparr>)
      | NoResponse \<Rightarrow> FailedResponse (failure ''timeout''))"

text \<open>
  Modelled from the spec: the attempts of one call, from attempt \<open>k\<close> on with
  \<open>retriesLeft\<close> retries left: the token is checked before the attempt, the descriptor is
  sent unchanged, a retryable failure is retried while retries are left, anything else is
  final. The result is the output and the descriptors sent, one for each attempt started.
\<close>

fun attempts ::
  "'n Transport \<Rightarrow> (AbortSignal, 'n) FetcherArgs \<Rightarrow> nat \<Rightarrow> nat \<Rightarrow>
     APIResponse \<times> (AbortSignal, 'n) FetcherArgs list" where
  "attempts t args k retriesLeft =
     (if firedBefore (argAbortSignal args) k then (FailedResponse (failure ''cancelled''), [])
      else if firesDuring (argAbortSignal args) k then
        (FailedResponse (failure ''cancelled''), [args])
      else if retryable t (send t k args) \<and> 0 < retriesLeft then
        (case attempts t args (Suc k) (retriesLeft - 1) of
           (response, sent) \<Rightarrow> (response, args # sent))
      else (classify t (send t k args), [args]))"

declare attempts.simps [simp del]

text \<open>
  Modelled from the spec: the retries of a call: those that its \<^verbatim>\<open>maxRetries\<close> allows, and 2
  when it has none.
\<close>

definition effectiveMaxRetries :: "'n Transport \<Rightarrow> ('sig, 'n) FetcherArgs \<Rightarrow> nat" where
  "effectiveMaxRetries t args =
     (case argMaxRetries args of Some n \<Rightarrow> retriesAllowed t n | None \<Rightarrow> 2)"

text \<open>
  Modelled from the spec: one call of the executor, and \<^verbatim>\<open>core.fetcher\<close> as the methods
  await it.
\<close>

definition executor ::
  "'n Transport \<Rightarrow> (AbortSignal, 'n) FetcherArgs \<Rightarrow>
     APIResponse \<times> (AbortSignal, 'n) FetcherArgs list" where
  "executor t args = attempts t args 0 (effectiveMaxRetries t args)"

definition fetcher :: "'n Transport \<Rightarrow> (AbortSignal, 'n) FetcherArgs \<Rightarrow> APIResponse" where
  "fetcher t args = fst (executor t args)"

text \<open>
  Modelled from the spec: how many attempts have started when the token fires.
\<close>

definition started :: "AbortSignal \<Rightarrow> nat" where
  "started signal =
     (case signal of
        NeverFires \<Rightarrow> 0
      | FiresBeforeAttempt k \<Rightarrow> k
      | FiresDuringAttempt k \<Rightarrow> Suc k)"

section \<open>What the engine is held to\<close>

text \<open>
  Modelled from the spec: the values that section 4.2 has a schema accept, written
  without the parser: the same flags at every node of the document. Unrecognized object
  keys never decide acceptance.
\<close>

function (sequential)
    conforms :: "ParseOptions \<Rightarrow> Schema \<Rightarrow> json \<Rightarrow> bool"
and conformsFields :: "ParseOptions \<Rightarrow> (string \<times> Field) list \<Rightarrow> (string, json) fmap \<Rightarrow> bool"
and conformsItems :: "ParseOptions \<Rightarrow> Schema \<Rightarrow> json list \<Rightarrow> bool"
and conformsSome :: "ParseOptions \<Rightarrow> Schema list \<Rightarrow> json \<Rightarrow> bool"
where
  "conforms opts SString raw = (case raw of JStr s \<Rightarrow> True | _ \<Rightarrow> False)"
| "conforms opts SNumber raw = (case raw of JNum x \<Rightarrow> True | _ \<Rightarrow> False)"
| "conforms opts SBoolean raw = (case raw of JBool b \<Rightarrow> True | _ \<Rightarrow> False)"
| "conforms opts (SEnum allowed) raw =
     (case raw of
        JStr s \<Rightarrow> s \<in> set allowed \<or> allowUnrecognizedEnumValues opts
      | _ \<Rightarrow> False)"
| "conforms opts (SObject props) raw =
     (case raw of JObj m \<Rightarrow> conformsFields opts props m | _ \<Rightarrow> False)"
| "conforms opts (SList item) raw =
     (case raw of JArr xs \<Rightarrow> conformsItems opts item xs | _ \<Rightarrow> False)"
| "conforms opts (SUnion alternatives) raw =
     (conformsSome opts alternatives raw \<or> allowUnrecognizedUnionMembers opts)"
| "conformsFields opts [] m = True"
| "conformsFields opts ((k, required s) # props) m =
     ((case fmlookup m k of None \<Rightarrow> False | Some v \<Rightarrow> conforms opts s v)
      \<and> conformsFields opts props m)"
| "conformsFields opts ((k, optional s) # props) m =
     ((case fmlookup m k of None \<Rightarrow> True | Some v \<Rightarrow> conforms opts s v)
      \<and> conformsFields opts props m)"
| "conformsItems opts item [] = True"
| "conformsItems opts item (x # xs) = (conforms opts item x \<and> conformsItems opts item xs)"
| "conformsSome opts [] raw = False"
| "conformsSome opts (s # alternatives) raw =
     (conforms opts s raw \<or> conformsSome opts alternatives raw)"
  by pat_completeness auto

termination
  by (relation "inv_image (less_than <*lex*> less_than)
        (\<lambda>x. case x of
           Inl (Inl (opts, s, raw)) \<Rightarrow> (2 * size s, 0)
         | Inl (Inr (opts, props, m)) \<Rightarrow>
             (2 * size_list (size_prod (\<lambda>_. 0) size) props + 1, 0)
         | Inr (Inl (opts, item, xs)) \<Rightarrow> (2 * size item + 1, length xs)
         | Inr (Inr (opts, alternatives, raw)) \<Rightarrow>
             (2 * size_list size alternatives + 1, 0))")
     auto

text \<open>
  Modelled from the spec: a node that is itself at fault, whatever its parts are: a value
  of the wrong kind, an enum string outside the closed set in strict mode, a value that no
  alternative of a union accepts in strict mode.
\<close>

definition rejects :: "ParseOptions \<Rightarrow> Schema \<Rightarrow> json \<Rightarrow> bool" where
  "rejects opts s raw =
     (case s of
        SString \<Rightarrow> (case raw of JStr x \<Rightarrow> False | _ \<Rightarrow> True)
      | SNumber \<Rightarrow> (case raw of JNum x \<Rightarrow> False | _ \<Rightarrow> True)
      | SBoolean \<Rightarrow> (case raw of JBool b \<Rightarrow> False | _ \<Rightarrow> True)
      | SEnum allowed \<Rightarrow>
          (case raw of
             JStr x \<Rightarrow> x \<notin> set allowed \<and> \<not> allowUnrecognizedEnumValues opts
           | _ \<Rightarrow> True)
      | SObject props \<Rightarrow> (case raw of JObj m \<Rightarrow> False | _ \<Rightarrow> True)
      | SList item \<Rightarrow> (case raw of JArr xs \<Rightarrow> False | _ \<Rightarrow> True)
      | SUnion alternatives \<Rightarrow>
          \<not> conformsSome opts alternatives raw \<and> \<not> allowUnrecognizedUnionMembers opts)"

fun fieldSchema :: "Field \<Rightarrow> Schema" where
  "fieldSchema (required s) = s"
| "fieldSchema (optional s) = s"

fun isRequired :: "Field \<Rightarrow> bool" where
  "isRequired (required s) = True"
| "isRequired (optional s) = False"

text \<open>
  Modelled from the spec: the offending field that a path of field names (and list
  indices) from the document root identifies: the path leads, through declared keys of
  objects and items of lists, to a node that is itself at fault, or it ends with a
  required key that the object it has reached lacks.
\<close>

fun faultAt :: "ParseOptions \<Rightarrow> Schema \<Rightarrow> json \<Rightarrow> string list \<Rightarrow> bool" where
  "faultAt opts s raw [] = rejects opts s raw"
| "faultAt opts s raw (c # path) =
     (case s of
        SObject props \<Rightarrow>
          (case raw of
             JObj m \<Rightarrow>
               (\<exists>f \<in> set (map snd (filter (\<lambda>p. fst p = c) props)).
                  case fmlookup m c of
                    None \<Rightarrow> path = [] \<and> isRequired f
                  | Some v \<Rightarrow> faultAt opts (fieldSchema f) v path)
           | _ \<Rightarrow> False)
      | SList item \<Rightarrow>
          (case raw of
             JArr xs \<Rightarrow>
               (\<exists>i \<in> set [0..<length xs]. c = decimal i \<and> faultAt opts item (xs ! i) path)
           | _ \<Rightarrow> False)
      | _ \<Rightarrow> False)"

text \<open>
  Modelled from the spec: a value without an undeclared key, at any depth: every key of an
  object is declared, and so in its declared fields, in the items of a list, and in a
  union under the alternative that is taken, the first that accepts the value.
\<close>

function (sequential)
    noUndeclaredKeys :: "ParseOptions \<Rightarrow> Schema \<Rightarrow> json \<Rightarrow> bool"
and noUndeclaredKeysFields :: "ParseOptions \<Rightarrow> (string \<times> Field) list \<Rightarrow> (string, json) fmap \<Rightarrow> bool"
and noUndeclaredKeysItems :: "ParseOptions \<Rightarrow> Schema \<Rightarrow> json list \<Rightarrow> bool"
and noUndeclaredKeysFirst :: "ParseOptions \<Rightarrow> Schema list \<Rightarrow> json \<Rightarrow> bool"
where
  "noUndeclaredKeys opts SString raw = True"
| "noUndeclaredKeys opts SNumber raw = True"
| "noUndeclaredKeys opts SBoolean raw = True"
| "noUndeclaredKeys opts (SEnum allowed) raw = True"
| "noUndeclaredKeys opts (SObject props) raw =
     (case raw of
        JObj m \<Rightarrow> fmdom' m \<subseteq> set (map fst props) \<and> noUndeclaredKeysFields opts props m
      | _ \<Rightarrow> True)"
| "noUndeclaredKeys opts (SList item) raw =
     (case raw of JArr xs \<Rightarrow> noUndeclaredKeysItems opts item xs | _ \<Rightarrow> True)"
| "noUndeclaredKeys opts (SUnion alternatives) raw =
     noUndeclaredKeysFirst opts alternatives raw"
| "noUndeclaredKeysFields opts [] m = True"
| "noUndeclaredKeysFields opts ((k, required s) # props) m =
     ((case fmlookup m k of None \<Rightarrow> True | Some v \<Rightarrow> noUndeclaredKeys opts s v)
      \<and> noUndeclaredKeysFields opts props m)"
| "noUndeclaredKeysFields opts ((k, optional s) # props) m =
     ((case fmlookup m k of None \<Rightarrow> True | Some v \<Rightarrow> noUndeclaredKeys opts s v)
      \<and> noUndeclaredKeysFields opts props m)"
| "noUndeclaredKeysItems opts item [] = True"
| "noUndeclaredKeysItems opts item (x # xs) =
     (noUndeclaredKeys opts item x \<and> noUndeclaredKeysItems opts item xs)"
| "noUndeclaredKeysFirst opts [] raw = True"
| "noUndeclaredKeysFirst opts (s # alternatives) raw =
     (if conforms opts s raw then noUndeclaredKeys opts s raw
      else noUndeclaredKeysFirst opts alternatives raw)"
  by pat_completeness auto

termination
  by (relation "inv_image (less_than <*lex*> less_than)
        (\<lambda>x. case x of
           Inl (Inl (opts, s, raw)) \<Rightarrow> (2 * size s, 0)
         | Inl (Inr (opts, props, m)) \<Rightarrow>
             (2 * size_list (size_prod (\<lambda>_. 0) size) props + 1, 0)
         | Inr (Inl (opts, item, xs)) \<Rightarrow> (2 * size item + 1, length xs)
         | Inr (Inr (opts, alternatives, raw)) \<Rightarrow>
             (2 * size_list size alternatives + 1, 0))")
     auto

section \<open>Auxiliary predicates\<close>

text \<open>
  A breadcrumb below the node at \<open>crumbs\<close> that identifies an offending field of one of the
  declared fields of an object, or of one of the items of a list (numbered from \<open>i\<close>).
\<close>

definition fieldFault ::
  "ParseOptions \<Rightarrow> string list \<Rightarrow> (string \<times> Field) list \<Rightarrow> (string, json) fmap \<Rightarrow>
     string list \<Rightarrow> bool" where
  "fieldFault opts crumbs props m breadcrumb =
     (\<exists>k f path. (k, f) \<in> set props \<and> breadcrumb = crumbs @ k # path \<and>
        (case fmlookup m k of
           None \<Rightarrow> path = [] \<and> isRequired f
         | Some v \<Rightarrow> faultAt opts (fieldSchema f) v path))"

definition itemFault ::
  "ParseOptions \<Rightarrow> string list \<Rightarrow> Schema \<Rightarrow> nat \<Rightarrow> json list \<Rightarrow> string list \<Rightarrow> bool" where
  "itemFault opts crumbs item i xs breadcrumb =
     (\<exists>j path. j < length xs \<and> breadcrumb = crumbs @ decimal (i + j) # path \<and>
        faultAt opts item (xs ! j) path)"

text \<open>What is asked of a value only when unrecognized object keys are dropped.\<close>

definition whenStrict :: "ParseOptions \<Rightarrow> bool \<Rightarrow> bool" where
  "whenStrict opts P = (unrecognizedObjectKeys opts = Strict \<longrightarrow> P)"

text \<open>
  Writing the declared fields back: whatever typed object agrees with the parsed entries on
  the declared keys, its fields serialize without a failure, under declared keys only, and
  to the raw values of those keys unless a key was dropped below them.
\<close>

definition fieldsBack ::
  "ParseOptions \<Rightarrow> string list \<Rightarrow> (string \<times> Field) list \<Rightarrow> (string, json) fmap \<Rightarrow>
     (string \<times> Typed) list \<Rightarrow> bool" where
  "fieldsBack opts crumbs props m entries =
     (\<forall>E. (\<forall>k \<in> fst ` set props. fmlookup E k = map_of entries k) \<longrightarrow>
        (\<exists>raws. serializeFields opts crumbs props E = ([], raws) \<and>
           (\<forall>k. k \<notin> fst ` set props \<longrightarrow> map_of raws k = None) \<and>
           (whenStrict opts (noUndeclaredKeysFields opts props m) \<longrightarrow>
              (\<forall>k \<in> fst ` set props. map_of raws k = fmlookup m k))))"

text \<open>
  The entry of \<^verbatim>\<open>requestOptions.headers\<close> under a key, \<open>None\<close> when there are no request
  options, no headers in them, or no such entry.
\<close>

definition callerHeader :: "('sig, 'n) RequestOptions option \<Rightarrow> string \<Rightarrow> string option" where
  "callerHeader requestOptions key =
     (case Option.bind requestOptions headers of None \<Rightarrow> None | Some h \<Rightarrow> h key)"

section \<open>Values used in the examples\<close>

text \<open>
  In the examples a number is a natural number and the product is the product of natural
  numbers: on whole numbers this small the product of doubles is exact.
\<close>

definition exampleImports :: "nat Imports" where
  "exampleImports =
     \<lparr> OpikApiEnvironment_Default = ''http://localhost:5173/api'',
       RUNTIME_type = ''node'',
       RUNTIME_version = ''20.0.0'',
       urlJoin = (\<lambda>base path. base @ ''/'' @ path),
       multiply = (\<lambda>a b. a * b),
       numberOf = (\<lambda>n. n) \<rparr>"

definition exampleOptions :: Options where
  "exampleOptions =
     \<lparr> environment = (\<lambda>k. None), apiKey = (\<lambda>k. None), workspaceName = (\<lambda>k. Some ''ws1'') \<rparr>"

definition noRequestOptions :: "('sig, 'n) RequestOptions" where
  "noRequestOptions =
     \<lparr> timeoutInSeconds = None, maxRetries = None, abortSignal = None,
       apiKeyOverride = None, workspaceNameOverride = None, headers = None \<rparr>"

definition notFound :: FetcherError where
  "notFound =
     \<lparr> reason = ''status-code'', statusCode = Some 404,
       errorBody = Some (JObj (fmap_of_list [(''message'', JStr ''not found'')])),
       rawBody = None, errorMessage = None \<rparr>"

definition acceptAny :: "json Parser" where
  "acceptAny raw opts = Inr raw"








definition strictOptions :: ParseOptions where
  "strictOptions =
     \<lparr> unrecognizedObjectKeys = Strict,
       allowUnrecognizedUnionMembers = False,
       allowUnrecognizedEnumValues = False,
       breadcrumbsPrefix = [] \<rparr>"

definition annotatedDetail :: json where
  "annotatedDetail =
     JObj (fmap_of_list [(''max'', JNum 1), (''min'', JNum 0), (''note'', JStr ''x'')])"

definition plainDetail :: json where
  "plainDetail = JObj (fmap_of_list [(''max'', JNum 1), (''min'', JNum 0)])"

text \<open>
  A schema two levels deep, put together from the schemas of the source, and two documents
  for it: one with a fault in the second item of its list, one with an undeclared key in an
  item and an enum value outside the closed set.
\<close>

definition sourcedDetails :: Schema where
  "sourcedDetails =
     SObject [(''source'', required DatasetItemSource),
              (''details'', required (SList NumericalFeedbackDetailUpdate))]"

definition brokenReport :: json where
  "brokenReport =
     JObj (fmap_of_list
       [(''source'', JStr ''unexpected''),
        (''details'', JArr [JObj (fmap_of_list [(''max'', JNum 1), (''min'', JNum 0)]),
                            JObj (fmap_of_list [(''max'', JStr ''high'')])])])"

definition annotatedReport :: json where
  "annotatedReport =
     JObj (fmap_of_list
       [(''source'', JStr ''unexpected''),
        (''details'', JArr [JObj (fmap_of_list
                              [(''max'', JNum 1), (''min'', JNum 0), (''note'', JStr ''x'')])])])"

section \<open>Properties of the schema engine\<close>

lemma parse_errors_nonempty: "parseAt opts crumbs s raw \<noteq> Inl []"
  by (cases s) (auto split: json.splits prod.splits option.splits if_splits)

text \<open>The parser accepts what conforms, at every breadcrumb.\<close>

lemma parse_conforms:
  shows "isl (parseAt opts crumbs s raw) \<longleftrightarrow> \<not> conforms opts s raw"
    and "fst (parseFields opts crumbs props m) = [] \<longleftrightarrow> conformsFields opts props m"
    and "fst (parseItems opts crumbs item i xs) = [] \<longleftrightarrow> conformsItems opts item xs"
    and "parseAlternatives opts crumbs alternatives i raw = None
           \<longleftrightarrow> \<not> conformsSome opts alternatives raw"
proof (induction opts crumbs s raw and opts crumbs props m and opts crumbs item i xs
         and opts crumbs alternatives i raw
       rule: parseAt_parseFields_parseItems_parseAlternatives.induct)
  case (1 opts crumbs raw)
  then show ?case by (auto split: json.splits)
next
  case (2 opts crumbs raw)
  then show ?case by (auto split: json.splits)
next
  case (3 opts crumbs raw)
  then show ?case by (auto split: json.splits)
next
  case (4 opts crumbs allowed raw)
  then show ?case by (auto split: json.splits)
next
  case (5 opts crumbs props raw)
  then show ?case by (auto split: json.splits prod.splits)
next
  case (6 opts crumbs item raw)
  then show ?case by (auto split: json.splits prod.splits)
next
  case (7 opts crumbs alternatives raw)
  then show ?case by (auto split: option.splits)
next
  case (8 opts crumbs m)
  then show ?case by simp
next
  case (9 opts crumbs k s props m)
  obtain errs0 entries0 where rest: "parseFields opts crumbs props m = (errs0, entries0)"
    by fastforce
  from "9.IH"(1) rest have r0: "errs0 = [] \<longleftrightarrow> conformsFields opts props m"
    by simp
  show ?case
  proof (cases "fmlookup m k")
    case None
    with rest show ?thesis by simp
  next
    case (Some v)
    from "9.IH"(2) [OF rest [symmetric] Some]
    have one: "isl (parseAt opts (crumbs @ [k]) s v) \<longleftrightarrow> \<not> conforms opts s v" .
    show ?thesis
    proof (cases "parseAt opts (crumbs @ [k]) s v")
      case (Inl es)
      with parse_errors_nonempty [of opts "crumbs @ [k]" s v] have "es \<noteq> []" by auto
      with Inl one rest Some show ?thesis by simp
    next
      case (Inr t)
      with one rest Some r0 show ?thesis by simp
    qed
  qed
next
  case (10 opts crumbs k s props m)
  obtain errs0 entries0 where rest: "parseFields opts crumbs props m = (errs0, entries0)"
    by fastforce
  from "10.IH"(1) rest have r0: "errs0 = [] \<longleftrightarrow> conformsFields opts props m"
    by simp
  show ?case
  proof (cases "fmlookup m k")
    case None
    with rest r0 show ?thesis by simp
  next
    case (Some v)
    from "10.IH"(2) [OF rest [symmetric] Some]
    have one: "isl (parseAt opts (crumbs @ [k]) s v) \<longleftrightarrow> \<not> conforms opts s v" .
    show ?thesis
    proof (cases "parseAt opts (crumbs @ [k]) s v")
      case (Inl es)
      with parse_errors_nonempty [of opts "crumbs @ [k]" s v] have "es \<noteq> []" by auto
      with Inl one rest Some show ?thesis by simp
    next
      case (Inr t)
      with one rest Some r0 show ?thesis by simp
    qed
  qed
next
  case (11 opts crumbs item i)
  then show ?case by simp
next
  case (12 opts crumbs item i x xs)
  obtain errs0 items0 where
    rest: "parseItems opts crumbs item (Suc i) xs = (errs0, items0)"
    by fastforce
  from "12.IH"(1) rest have r0: "errs0 = [] \<longleftrightarrow> conformsItems opts item xs"
    by simp
  from "12.IH"(2) [OF rest [symmetric]]
  have one: "isl (parseAt opts (crumbs @ [decimal i]) item x) \<longleftrightarrow> \<not> conforms opts item x" .
  show ?case
  proof (cases "parseAt opts (crumbs @ [decimal i]) item x")
    case (Inl es)
    with parse_errors_nonempty [of opts "crumbs @ [decimal i]" item x] have "es \<noteq> []" by auto
    with Inl one rest show ?thesis by simp
  next
    case (Inr t)
    with one rest r0 show ?thesis by simp
  qed
next
  case (13 opts crumbs i raw)
  then show ?case by simp
next
  case (14 opts crumbs s alternatives i raw)
  show ?case
  proof (cases "parseAt opts crumbs s raw")
    case (Inl es)
    with "14.IH"(1) "14.IH"(2) [OF Inl] show ?thesis by simp
  next
    case (Inr t)
    with "14.IH"(1) show ?thesis by simp
  qed
qed

lemma parse_accepts: "(\<exists>t. parseAt opts crumbs s raw = Inr t) \<longleftrightarrow> conforms opts s raw"
  using parse_conforms(1) [of opts crumbs s raw]
  by (cases "parseAt opts crumbs s raw") auto

lemma fieldFault_Cons:
  "fieldFault opts crumbs props m b \<Longrightarrow> fieldFault opts crumbs (p # props) m b"
  unfolding fieldFault_def by fastforce

lemma itemFault_Cons:
  "itemFault opts crumbs item (Suc i) xs b \<Longrightarrow> itemFault opts crumbs item i (x # xs) b"
  unfolding itemFault_def
proof (elim exE conjE)
  fix j path
  assume "j < length xs" "b = crumbs @ decimal (Suc i + j) # path" "faultAt opts item (xs ! j) path"
  then have "Suc j < length (x # xs) \<and> b = crumbs @ decimal (i + Suc j) # path \<and>
      faultAt opts item ((x # xs) ! Suc j) path"
    by simp
  then show "\<exists>j path. j < length (x # xs) \<and> b = crumbs @ decimal (i + j) # path \<and>
      faultAt opts item ((x # xs) ! j) path"
    by blast
qed

lemma fieldFault_object:
  assumes "fieldFault opts crumbs props m b"
  shows "\<exists>path. b = crumbs @ path \<and> faultAt opts (SObject props) (JObj m) path"
proof -
  from assms obtain k f path where
    mem: "(k, f) \<in> set props" and b: "b = crumbs @ k # path" and
    at: "case fmlookup m k of
           None \<Rightarrow> path = [] \<and> isRequired f
         | Some v \<Rightarrow> faultAt opts (fieldSchema f) v path"
    unfolding fieldFault_def by blast
  from mem have "f \<in> set (map snd (filter (\<lambda>p. fst p = k) props))"
    by force
  with at have "\<exists>f' \<in> set (map snd (filter (\<lambda>p. fst p = k) props)).
      case fmlookup m k of
        None \<Rightarrow> path = [] \<and> isRequired f'
      | Some v \<Rightarrow> faultAt opts (fieldSchema f') v path"
    by blast
  then have "faultAt opts (SObject props) (JObj m) (k # path)"
    by simp
  with b show ?thesis by blast
qed

lemma itemFault_list:
  assumes "itemFault opts crumbs item 0 xs b"
  shows "\<exists>path. b = crumbs @ path \<and> faultAt opts (SList item) (JArr xs) path"
proof -
  from assms obtain j path where
    j: "j < length xs" and b: "b = crumbs @ decimal j # path" and
    at: "faultAt opts item (xs ! j) path"
    unfolding itemFault_def by auto
  from j at have "faultAt opts (SList item) (JArr xs) (decimal j # path)"
    by auto
  with b show ?thesis by blast
qed

text \<open>Every reported failure is at a breadcrumb that identifies an offending field.\<close>

lemma parse_faults:
  shows "parseAt opts crumbs s raw = Inl errs \<Longrightarrow>
           \<forall>e \<in> set errs. \<exists>path. fst e = crumbs @ path \<and> faultAt opts s raw path"
    and "parseFields opts crumbs props m = (errs, entries) \<Longrightarrow>
           \<forall>e \<in> set errs. fieldFault opts crumbs props m (fst e)"
    and "parseItems opts crumbs item i xs = (errs, items) \<Longrightarrow>
           \<forall>e \<in> set errs. itemFault opts crumbs item i xs (fst e)"
    and "parseAlternatives opts crumbs alternatives i raw = found \<Longrightarrow> True"
proof (induction opts crumbs s raw and opts crumbs props m and opts crumbs item i xs
         and opts crumbs alternatives i raw
       arbitrary: errs and errs entries and errs items and found
       rule: parseAt_parseFields_parseItems_parseAlternatives.induct)
  case (1 opts crumbs raw)
  then show ?case by (auto simp: rejects_def split: json.splits)
next
  case (2 opts crumbs raw)
  then show ?case by (auto simp: rejects_def split: json.splits)
next
  case (3 opts crumbs raw)
  then show ?case by (auto simp: rejects_def split: json.splits)
next
  case (4 opts crumbs allowed raw)
  then show ?case by (auto simp: rejects_def split: json.splits if_splits)
next
  case (5 opts crumbs props raw)
  show ?case
  proof (cases raw)
    case (JObj m)
    obtain errs0 entries0 where fs: "parseFields opts crumbs props m = (errs0, entries0)"
      by fastforce
    with "5.prems" JObj have "errs = errs0"
      by (auto split: if_splits)
    with "5.IH" [OF JObj fs] have "\<forall>e \<in> set errs. fieldFault opts crumbs props m (fst e)"
      by simp
    with JObj show ?thesis
      by (blast dest: fieldFault_object)
  qed (use "5.prems" in \<open>auto simp: rejects_def\<close>)
next
  case (6 opts crumbs item raw)
  show ?case
  proof (cases raw)
    case (JArr xs)
    obtain errs0 items0 where its: "parseItems opts crumbs item 0 xs = (errs0, items0)"
      by fastforce
    with "6.prems" JArr have "errs = errs0"
      by (auto split: if_splits)
    with "6.IH" [OF JArr its] have "\<forall>e \<in> set errs. itemFault opts crumbs item 0 xs (fst e)"
      by simp
    with JArr show ?thesis
      by (blast dest: itemFault_list)
  qed (use "6.prems" in \<open>auto simp: rejects_def\<close>)
next
  case (7 opts crumbs alternatives raw)
  with parse_conforms(4) [of opts crumbs alternatives 0 raw] show ?case
    by (auto simp: rejects_def split: option.splits if_splits)
next
  case (8 opts crumbs m)
  then show ?case by simp
next
  case (9 opts crumbs k s props m)
  obtain errs0 entries0 where rest: "parseFields opts crumbs props m = (errs0, entries0)"
    by fastforce
  from "9.IH"(1) [OF rest]
  have r0: "\<forall>e \<in> set errs0. fieldFault opts crumbs ((k, required s) # props) m (fst e)"
    by (blast intro: fieldFault_Cons)
  show ?case
  proof (cases "fmlookup m k")
    case None
    then have "fieldFault opts crumbs ((k, required s) # props) m (crumbs @ [k])"
      unfolding fieldFault_def by force
    moreover from "9.prems" rest None
    have "errs = (crumbs @ [k], ''missing required key'') # errs0"
      by simp
    ultimately show ?thesis
      using r0 by (simp add: ball_Un)
  next
    case (Some v)
    show ?thesis
    proof (cases "parseAt opts (crumbs @ [k]) s v")
      case (Inl es)
      have "\<forall>e \<in> set es. fieldFault opts crumbs ((k, required s) # props) m (fst e)"
      proof
        fix e assume "e \<in> set es"
        with "9.IH"(2) [OF rest [symmetric] Some Inl] obtain path where
          "fst e = (crumbs @ [k]) @ path" "faultAt opts s v path"
          by blast
        with Some show "fieldFault opts crumbs ((k, required s) # props) m (fst e)"
          unfolding fieldFault_def by force
      qed
      moreover from "9.prems" rest Some Inl have "errs = es @ errs0"
        by simp
      ultimately show ?thesis
        using r0 by (simp add: ball_Un)
    next
      case (Inr t)
      with "9.prems" rest Some have "errs = errs0"
        by simp
      with r0 show ?thesis
        by simp
    qed
  qed
next
  case (10 opts crumbs k s props m)
  obtain errs0 entries0 where rest: "parseFields opts crumbs props m = (errs0, entries0)"
    by fastforce
  from "10.IH"(1) [OF rest]
  have r0: "\<forall>e \<in> set errs0. fieldFault opts crumbs ((k, optional s) # props) m (fst e)"
    by (blast intro: fieldFault_Cons)
  show ?case
  proof (cases "fmlookup m k")
    case None
    with "10.prems" rest have "errs = errs0"
      by simp
    with r0 show ?thesis
      by simp
  next
    case (Some v)
    show ?thesis
    proof (cases "parseAt opts (crumbs @ [k]) s v")
      case (Inl es)
      have "\<forall>e \<in> set es. fieldFault opts crumbs ((k, optional s) # props) m (fst e)"
      proof
        fix e assume "e \<in> set es"
        with "10.IH"(2) [OF rest [symmetric] Some Inl] obtain path where
          "fst e = (crumbs @ [k]) @ path" "faultAt opts s v path"
          by blast
        with Some show "fieldFault opts crumbs ((k, optional s) # props) m (fst e)"
          unfolding fieldFault_def by force
      qed
      moreover from "10.prems" rest Some Inl have "errs = es @ errs0"
        by simp
      ultimately show ?thesis
        using r0 by (simp add: ball_Un)
    next
      case (Inr t)
      with "10.prems" rest Some have "errs = errs0"
        by simp
      with r0 show ?thesis
        by simp
    qed
  qed
next
  case (11 opts crumbs item i)
  then show ?case by simp
next
  case (12 opts crumbs item i x xs)
  obtain errs0 items0 where
    rest: "parseItems opts crumbs item (Suc i) xs = (errs0, items0)"
    by fastforce
  from "12.IH"(1) [OF rest]
  have r0: "\<forall>e \<in> set errs0. itemFault opts crumbs item i (x # xs) (fst e)"
    by (blast intro: itemFault_Cons)
  show ?case
  proof (cases "parseAt opts (crumbs @ [decimal i]) item x")
    case (Inl es)
    have "\<forall>e \<in> set es. itemFault opts crumbs item i (x # xs) (fst e)"
    proof
      fix e assume "e \<in> set es"
      with "12.IH"(2) [OF rest [symmetric] Inl] obtain path where
        "fst e = (crumbs @ [decimal i]) @ path" "faultAt opts item x path"
        by blast
      then have "0 < length (x # xs) \<and> fst e = crumbs @ decimal (i + 0) # path \<and>
          faultAt opts item ((x # xs) ! 0) path"
        by simp
      then show "itemFault opts crumbs item i (x # xs) (fst e)"
        unfolding itemFault_def by blast
    qed
    moreover from "12.prems" rest Inl have "errs = es @ errs0"
      by simp
    ultimately show ?thesis
      using r0 by (simp add: ball_Un)
  next
    case (Inr t)
    with "12.prems" rest have "errs = errs0"
      by simp
    with r0 show ?thesis
      by simp
  qed
next
  case (13 opts crumbs i raw)
  then show ?case by simp
next
  case (14 opts crumbs s alternatives i raw)
  then show ?case by simp
qed

lemma merge_back:
  assumes "\<And>k. k \<notin> K \<Longrightarrow> map_of raws k = None"
    and "\<And>k. k \<in> K \<Longrightarrow> map_of raws k = fmlookup m k"
  shows "fmdrop_set K m ++\<^sub>f fmap_of_list raws = m"
proof (rule fmap_ext)
  fix k
  show "fmlookup (fmdrop_set K m ++\<^sub>f fmap_of_list raws) k = fmlookup m k"
  proof (cases "map_of raws k")
    case None
    then have "fmlookup (fmap_of_list raws) k = None"
      by (simp add: fmlookup_of_list)
    then have "k |\<notin>| fmdom (fmap_of_list raws)"
      by (rule fmdom_notI)
    with None assms [of k] show ?thesis
      by (cases "k \<in> K") simp_all
  next
    case (Some v)
    then have "fmlookup (fmap_of_list raws) k = Some v"
      by (simp add: fmlookup_of_list)
    then have "k |\<in>| fmdom (fmap_of_list raws)"
      by (rule fmdomI)
    with Some assms [of k] show ?thesis
      by (cases "k \<in> K") (simp_all add: fmlookup_of_list)
  qed
qed

lemma write_back:
  assumes "\<And>k. k \<notin> K \<Longrightarrow> map_of raws k = None"
    and "\<And>k. k \<in> K \<Longrightarrow> map_of raws k = fmlookup m k"
    and "fmdom' m \<subseteq> K"
  shows "fmempty ++\<^sub>f fmap_of_list raws = m"
proof (rule fmap_ext)
  fix k
  show "fmlookup (fmempty ++\<^sub>f fmap_of_list raws) k = fmlookup m k"
  proof (cases "k \<in> K")
    case True
    with assms(2) [of k] show ?thesis
      by (simp add: fmlookup_of_list)
  next
    case False
    with assms(3) have "fmlookup m k = None"
      by (auto simp: fmdom'_notI dest: fmdom'I)
    with False assms(1) [of k] show ?thesis
      by (simp add: fmlookup_of_list)
  qed
qed

lemma parseFields_keys:
  "parseFields opts crumbs props m = (errs, entries) \<Longrightarrow>
     \<forall>e \<in> set entries. fst e \<in> fst ` set props"
proof (induction props arbitrary: errs entries)
  case Nil
  then show ?case by simp
next
  case (Cons p props)
  obtain k f where p: "p = (k, f)" by force
  obtain errs0 entries0 where rest: "parseFields opts crumbs props m = (errs0, entries0)"
    by fastforce
  from Cons.IH [OF rest] have "\<forall>e \<in> set entries0. fst e \<in> fst ` set props" .
  with Cons.prems p rest show ?case
    by (cases f) (auto split: option.splits sum.splits)
qed

text \<open>One declared field more, present in the raw object.\<close>

lemma fieldsBack_present:
  assumes fresh: "k \<notin> fst ` set props"
    and back0: "fieldsBack opts crumbs props m entries0"
    and present: "fmlookup m k = Some v"
    and one: "serializeAt opts (crumbs @ [k]) (fieldSchema f) t = Inr out"
    and same: "whenStrict opts (noUndeclaredKeys opts (fieldSchema f) v) \<longrightarrow> out = v"
  shows "fieldsBack opts crumbs ((k, f) # props) m ((k, t) # entries0)"
  unfolding fieldsBack_def
proof (intro allI impI)
  fix E
  assume agree: "\<forall>k' \<in> fst ` set ((k, f) # props). fmlookup E k' = map_of ((k, t) # entries0) k'"
  with fresh have "\<forall>k' \<in> fst ` set props. fmlookup E k' = map_of entries0 k'"
    by auto
  with back0 obtain raws0 where
    ser0: "serializeFields opts crumbs props E = ([], raws0)" and
    none0: "\<And>k'. k' \<notin> fst ` set props \<Longrightarrow> map_of raws0 k' = None" and
    same0: "whenStrict opts (noUndeclaredKeysFields opts props m) \<Longrightarrow>
              (\<forall>k' \<in> fst ` set props. map_of raws0 k' = fmlookup m k')"
    unfolding fieldsBack_def by blast
  from agree have "fmlookup E k = Some t" by simp
  with ser0 one have "serializeFields opts crumbs ((k, f) # props) E = ([], (k, out) # raws0)"
    by (cases f) simp_all
  moreover have "\<forall>k'. k' \<notin> fst ` set ((k, f) # props) \<longrightarrow> map_of ((k, out) # raws0) k' = None"
    using none0 by simp
  moreover have "whenStrict opts (noUndeclaredKeysFields opts ((k, f) # props) m) \<longrightarrow>
      (\<forall>k' \<in> fst ` set ((k, f) # props). map_of ((k, out) # raws0) k' = fmlookup m k')"
  proof
    assume "whenStrict opts (noUndeclaredKeysFields opts ((k, f) # props) m)"
    with present have "whenStrict opts (noUndeclaredKeys opts (fieldSchema f) v)"
      and "whenStrict opts (noUndeclaredKeysFields opts props m)"
      by (cases f; simp add: whenStrict_def)+
    with same same0 present
    show "\<forall>k' \<in> fst ` set ((k, f) # props). map_of ((k, out) # raws0) k' = fmlookup m k'"
      by auto
  qed
  ultimately show "\<exists>raws. serializeFields opts crumbs ((k, f) # props) E = ([], raws) \<and>
      (\<forall>k'. k' \<notin> fst ` set ((k, f) # props) \<longrightarrow> map_of raws k' = None) \<and>
      (whenStrict opts (noUndeclaredKeysFields opts ((k, f) # props) m) \<longrightarrow>
         (\<forall>k' \<in> fst ` set ((k, f) # props). map_of raws k' = fmlookup m k'))"
    by blast
qed

text \<open>One declared optional field more, absent from the raw object.\<close>

lemma fieldsBack_absent:
  assumes fresh: "k \<notin> fst ` set props"
    and back0: "fieldsBack opts crumbs props m entries0"
    and absent: "fmlookup m k = None"
    and unset: "map_of entries0 k = None"
  shows "fieldsBack opts crumbs ((k, optional s) # props) m entries0"
  unfolding fieldsBack_def
proof (intro allI impI)
  fix E
  assume agree:
    "\<forall>k' \<in> fst ` set ((k, optional s) # props). fmlookup E k' = map_of entries0 k'"
  then have "\<forall>k' \<in> fst ` set props. fmlookup E k' = map_of entries0 k'"
    by auto
  with back0 obtain raws0 where
    ser0: "serializeFields opts crumbs props E = ([], raws0)" and
    none0: "\<And>k'. k' \<notin> fst ` set props \<Longrightarrow> map_of raws0 k' = None" and
    same0: "whenStrict opts (noUndeclaredKeysFields opts props m) \<Longrightarrow>
              (\<forall>k' \<in> fst ` set props. map_of raws0 k' = fmlookup m k')"
    unfolding fieldsBack_def by blast
  from agree unset have "fmlookup E k = None" by simp
  with ser0 have "serializeFields opts crumbs ((k, optional s) # props) E = ([], raws0)"
    by simp
  moreover have "\<forall>k'. k' \<notin> fst ` set ((k, optional s) # props) \<longrightarrow> map_of raws0 k' = None"
    using none0 by simp
  moreover have "whenStrict opts (noUndeclaredKeysFields opts ((k, optional s) # props) m) \<longrightarrow>
      (\<forall>k' \<in> fst ` set ((k, optional s) # props). map_of raws0 k' = fmlookup m k')"
  proof
    assume "whenStrict opts (noUndeclaredKeysFields opts ((k, optional s) # props) m)"
    with absent have "whenStrict opts (noUndeclaredKeysFields opts props m)"
      by (simp add: whenStrict_def)
    with same0 absent none0 [OF fresh]
    show "\<forall>k' \<in> fst ` set ((k, optional s) # props). map_of raws0 k' = fmlookup m k'"
      by auto
  qed
  ultimately show "\<exists>raws. serializeFields opts crumbs ((k, optional s) # props) E = ([], raws) \<and>
      (\<forall>k'. k' \<notin> fst ` set ((k, optional s) # props) \<longrightarrow> map_of raws k' = None) \<and>
      (whenStrict opts (noUndeclaredKeysFields opts ((k, optional s) # props) m) \<longrightarrow>
         (\<forall>k' \<in> fst ` set ((k, optional s) # props). map_of raws k' = fmlookup m k'))"
    by blast
qed

text \<open>
  Writing back what was parsed never fails, and gives the raw value back unless a key was
  dropped.
\<close>

lemma parse_serialize:
  shows "parseAt opts crumbs s raw = Inr t \<Longrightarrow> wellFormed s \<Longrightarrow>
           \<exists>out. serializeAt opts crumbs s t = Inr out \<and>
             (whenStrict opts (noUndeclaredKeys opts s raw) \<longrightarrow> out = raw)"
    and "parseFields opts crumbs props m = ([], entries) \<Longrightarrow> wellFormed (SObject props) \<Longrightarrow>
           fieldsBack opts crumbs props m entries"
    and "parseItems opts crumbs item i xs = ([], items) \<Longrightarrow> wellFormed item \<Longrightarrow>
           \<exists>outs. serializeItems opts crumbs item i items = ([], outs) \<and>
             (whenStrict opts (noUndeclaredKeysItems opts item xs) \<longrightarrow> outs = xs)"
    and "parseAlternatives opts crumbs alternatives i raw = Some (n, t) \<Longrightarrow>
           wellFormed (SUnion alternatives) \<Longrightarrow>
           i \<le> n \<and> (\<exists>out. serializeAlternative opts crumbs alternatives (n - i) t = Inr out \<and>
             (whenStrict opts (noUndeclaredKeysFirst opts alternatives raw) \<longrightarrow> out = raw))"
proof (induction opts crumbs s raw and opts crumbs props m and opts crumbs item i xs
         and opts crumbs alternatives i raw
       arbitrary: t and entries and items and n t
       rule: parseAt_parseFields_parseItems_parseAlternatives.induct)
  case (1 opts crumbs raw)
  then show ?case by (auto split: json.splits)
next
  case (2 opts crumbs raw)
  then show ?case by (auto split: json.splits)
next
  case (3 opts crumbs raw)
  then show ?case by (auto split: json.splits)
next
  case (4 opts crumbs allowed raw)
  then show ?case by (auto split: json.splits if_splits)
next
  case (5 opts crumbs props raw)
  let ?K = "set (map fst props)"
  from "5.prems"(1) obtain m entries where
    raw: "raw = JObj m" and
    parsed: "parseFields opts crumbs props m = ([], entries)" and
    t: "t = TObject (fmap_of_list entries)
              (case unrecognizedObjectKeys opts of
                 Passthrough \<Rightarrow> fmdrop_set ?K m
               | Strict \<Rightarrow> fmempty)"
    by (auto split: json.splits prod.splits if_splits)
  from "5.IH" [OF raw parsed "5.prems"(2)]
  have "fieldsBack opts crumbs props m entries" .
  moreover have "\<forall>k \<in> fst ` set props. fmlookup (fmap_of_list entries) k = map_of entries k"
    by (simp add: fmlookup_of_list)
  ultimately obtain raws where
    written: "serializeFields opts crumbs props (fmap_of_list entries) = ([], raws)" and
    none: "\<And>k. k \<notin> fst ` set props \<Longrightarrow> map_of raws k = None" and
    same: "whenStrict opts (noUndeclaredKeysFields opts props m) \<Longrightarrow>
             (\<forall>k \<in> fst ` set props. map_of raws k = fmlookup m k)"
    unfolding fieldsBack_def by blast
  let ?bag = "case unrecognizedObjectKeys opts of
                Passthrough \<Rightarrow> fmdrop_set ?K m
              | Strict \<Rightarrow> fmempty"
  from raw t written
  have ser: "serializeAt opts crumbs (SObject props) t = Inr (JObj (?bag ++\<^sub>f fmap_of_list raws))"
    by (cases "unrecognizedObjectKeys opts") simp_all
  have "whenStrict opts (noUndeclaredKeys opts (SObject props) raw) \<longrightarrow>
      ?bag ++\<^sub>f fmap_of_list raws = m"
  proof
    assume keep: "whenStrict opts (noUndeclaredKeys opts (SObject props) raw)"
    with raw have "whenStrict opts (noUndeclaredKeysFields opts props m)"
      by (simp add: whenStrict_def)
    from same [OF this] have agree: "\<And>k. k \<in> fst ` set props \<Longrightarrow> map_of raws k = fmlookup m k"
      by blast
    show "?bag ++\<^sub>f fmap_of_list raws = m"
    proof (cases "unrecognizedObjectKeys opts")
      case Passthrough
      with merge_back [of "fst ` set props" raws m, OF none agree] show ?thesis
        by simp
    next
      case Strict
      with keep raw have "fmdom' m \<subseteq> fst ` set props"
        by (simp add: whenStrict_def)
      with Strict write_back [of "fst ` set props" raws m, OF none agree] show ?thesis
        by simp
    qed
  qed
  with ser raw show ?case
    by simp
next
  case (6 opts crumbs item raw)
  from "6.prems"(1) obtain xs items where
    raw: "raw = JArr xs" and
    parsed: "parseItems opts crumbs item 0 xs = ([], items)" and
    t: "t = TList items"
    by (auto split: json.splits prod.splits if_splits)
  from "6.prems"(2) have "wellFormed item" by simp
  from "6.IH" [OF raw parsed this] raw t show ?case
    by (auto simp: whenStrict_def)
next
  case (7 opts crumbs alternatives raw)
  show ?case
  proof (cases "parseAlternatives opts crumbs alternatives 0 raw")
    case None
    with "7.prems" show ?thesis by (auto split: if_splits)
  next
    case (Some found)
    obtain n t' where found: "found = (n, t')" by force
    from "7.IH" [OF Some [unfolded found] "7.prems"(2)] "7.prems"(1) Some found
    show ?thesis by auto
  qed
next
  case (8 opts crumbs m)
  then show ?case by (simp add: fieldsBack_def)
next
  case (9 opts crumbs k s props m)
  obtain errs0 entries0 where rest: "parseFields opts crumbs props m = (errs0, entries0)"
    by fastforce
  from "9.prems"(2) have
    fresh: "k \<notin> fst ` set props" and wfs: "wellFormed s" and wfrest: "wellFormed (SObject props)"
    by auto
  from "9.prems"(1) rest obtain v t where
    present: "fmlookup m k = Some v" and
    parsed: "parseAt opts (crumbs @ [k]) s v = Inr t" and
    none: "errs0 = []" and
    entries: "entries = (k, t) # entries0"
    by (auto simp: parse_errors_nonempty split: option.splits sum.splits)
  from "9.IH"(1) [OF rest [unfolded none] wfrest]
  have back0: "fieldsBack opts crumbs props m entries0" .
  from "9.IH"(2) [OF rest [symmetric] present parsed wfs] obtain out where
    "serializeAt opts (crumbs @ [k]) (fieldSchema (required s)) t = Inr out"
    "whenStrict opts (noUndeclaredKeys opts (fieldSchema (required s)) v) \<longrightarrow> out = v"
    by auto
  from fieldsBack_present [OF fresh back0 present this] entries show ?case
    by simp
next
  case (10 opts crumbs k s props m)
  obtain errs0 entries0 where rest: "parseFields opts crumbs props m = (errs0, entries0)"
    by fastforce
  from "10.prems"(2) have
    fresh: "k \<notin> fst ` set props" and wfs: "wellFormed s" and wfrest: "wellFormed (SObject props)"
    by auto
  show ?case
  proof (cases "fmlookup m k")
    case None
    with "10.prems"(1) rest have none: "errs0 = []" and entries: "entries = entries0"
      by auto
    from "10.IH"(1) [OF rest [unfolded none] wfrest]
    have back0: "fieldsBack opts crumbs props m entries0" .
    from parseFields_keys [OF rest] fresh have "k \<notin> fst ` set entries0"
      by force
    then have unset: "map_of entries0 k = None"
      by (simp add: map_of_eq_None_iff)
    from fieldsBack_absent [OF fresh back0 None unset] entries show ?thesis
      by simp
  next
    case (Some v)
    with "10.prems"(1) rest obtain t where
      parsed: "parseAt opts (crumbs @ [k]) s v = Inr t" and
      none: "errs0 = []" and
      entries: "entries = (k, t) # entries0"
      by (auto simp: parse_errors_nonempty split: sum.splits)
    from "10.IH"(1) [OF rest [unfolded none] wfrest]
    have back0: "fieldsBack opts crumbs props m entries0" .
    from "10.IH"(2) [OF rest [symmetric] Some parsed wfs] obtain out where
      "serializeAt opts (crumbs @ [k]) (fieldSchema (optional s)) t = Inr out"
      "whenStrict opts (noUndeclaredKeys opts (fieldSchema (optional s)) v) \<longrightarrow> out = v"
      by auto
    from fieldsBack_present [OF fresh back0 Some this] entries show ?thesis
      by simp
  qed
next
  case (11 opts crumbs item i)
  then show ?case by simp
next
  case (12 opts crumbs item i x xs)
  obtain errs0 items0 where
    rest: "parseItems opts crumbs item (Suc i) xs = (errs0, items0)"
    by fastforce
  from "12.prems"(1) rest obtain t where
    parsed: "parseAt opts (crumbs @ [decimal i]) item x = Inr t" and
    none: "errs0 = []" and items: "items = t # items0"
    by (auto simp: parse_errors_nonempty split: sum.splits)
  from "12.IH"(1) [OF rest [unfolded none] "12.prems"(2)] obtain outs where
    outs: "serializeItems opts crumbs item (Suc i) items0 = ([], outs)"
      "whenStrict opts (noUndeclaredKeysItems opts item xs) \<longrightarrow> outs = xs"
    by auto
  from "12.IH"(2) [OF rest [symmetric] parsed "12.prems"(2)] obtain out where
    out: "serializeAt opts (crumbs @ [decimal i]) item t = Inr out"
      "whenStrict opts (noUndeclaredKeys opts item x) \<longrightarrow> out = x"
    by auto
  from outs out items show ?case
    by (auto simp: whenStrict_def)
next
  case (13 opts crumbs i raw)
  then show ?case by simp
next
  case (14 opts crumbs s alternatives i raw)
  from "14.prems"(2) have wfs: "wellFormed s" and wfrest: "wellFormed (SUnion alternatives)"
    by auto
  show ?case
  proof (cases "parseAt opts crumbs s raw")
    case (Inr t')
    with "14.prems"(1) have "n = i" "t = t'" by auto
    moreover from Inr have "conforms opts s raw"
      using parse_accepts [of opts crumbs s raw] by auto
    ultimately show ?thesis
      using "14.IH"(1) [OF Inr wfs] by (auto simp: whenStrict_def)
  next
    case (Inl es)
    with "14.prems"(1) have "parseAlternatives opts crumbs alternatives (Suc i) raw = Some (n, t)"
      by simp
    from "14.IH"(2) [OF Inl this wfrest] obtain out where
      later: "Suc i \<le> n" and
      ser: "serializeAlternative opts crumbs alternatives (n - Suc i) t = Inr out" and
      same: "whenStrict opts (noUndeclaredKeysFirst opts alternatives raw) \<longrightarrow> out = raw"
      by auto
    from Inl have "\<not> conforms opts s raw"
      using parse_accepts [of opts crumbs s raw] by auto
    with same have same': "whenStrict opts (noUndeclaredKeysFirst opts (s # alternatives) raw)
        \<longrightarrow> out = raw"
      by (simp add: whenStrict_def)
    from later have "n - i = Suc (n - Suc i)" by arith
    with later ser same' show ?thesis by auto
  qed
qed

text \<open>The documents of the examples.\<close>

lemma decimal_small: "decimal 0 = ''0''" "decimal 1 = ''1''" "decimal (Suc 0) = ''1''"
  by code_simp+

lemma sourcedDetails_wellFormed: "wellFormed sourcedDetails"
  by (simp add: sourcedDetails_def NumericalFeedbackDetailUpdate_def DatasetItemSource_def)

lemma brokenReport_parse:
  "parse sourcedDetails brokenReport responseParseOptions
     = Inl [([''response'', ''details'', ''1'', ''max''], ''expected a number''),
            ([''response'', ''details'', ''1'', ''min''], ''missing required key'')]"
  by (simp add: parse_def sourcedDetails_def brokenReport_def responseParseOptions_def
        DatasetItemSource_def NumericalFeedbackDetailUpdate_def fmlookup_of_list decimal_small)

lemma annotatedReport_parse:
  "\<exists>typed. parse sourcedDetails annotatedReport responseParseOptions = Inr typed"
  by (simp add: parse_def sourcedDetails_def annotatedReport_def responseParseOptions_def
        DatasetItemSource_def NumericalFeedbackDetailUpdate_def fmlookup_of_list decimal_small)

section \<open>Properties of the request executor\<close>

lemma attempts_retry:
  assumes "\<not> firedBefore (argAbortSignal args) k" and "\<not> firesDuring (argAbortSignal args) k"
    and "retryable t (send t k args)" and "0 < r"
  shows "attempts t args k r =
           (fst (attempts t args (Suc k) (r - 1)), args # snd (attempts t args (Suc k) (r - 1)))"
  using assms by (subst attempts.simps) (simp split: prod.splits)




lemma attempts_fired:
  assumes "firedBefore (argAbortSignal args) k"
  shows "attempts t args k r = (FailedResponse (failure ''cancelled''), [])"
  using assms by (subst attempts.simps) simp

lemma attempts_aborted:
  assumes "\<not> firedBefore (argAbortSignal args) k" and "firesDuring (argAbortSignal args) k"
  shows "attempts t args k r = (FailedResponse (failure ''cancelled''), [args])"
  using assms by (subst attempts.simps) simp

lemma success_not_retryable:
  "classify t r = SuccessfulResponse body hdrs \<Longrightarrow> \<not> retryable t r"
  by (auto simp: classify_def retryable_def split: TransportResult.splits if_splits option.splits)


text \<open>Retries up to the attempt at which the token fires.\<close>

lemma attempts_until_fired:
  assumes "\<forall>j. k \<le> j \<and> j < n \<longrightarrow> retryable t (send t j args)"
    and "k \<le> n" and "n - k \<le> r"
    and "argAbortSignal args = Some (FiresDuringAttempt n)"
  shows "attempts t args k r = (FailedResponse (failure ''cancelled''), replicate (Suc (n - k)) args)"
  using assms
proof (induction "n - k" arbitrary: k r)
  case 0
  then have "k = n" by simp
  with 0 show ?case
    by (simp add: attempts_aborted firedBefore_def firesDuring_def)
next
  case (Suc d)
  then have less: "k < n" and "0 < r" by auto
  with Suc.prems have "attempts t args k r =
      (fst (attempts t args (Suc k) (r - 1)), args # snd (attempts t args (Suc k) (r - 1)))"
    by (intro attempts_retry) (auto simp: firedBefore_def firesDuring_def)
  moreover have "attempts t args (Suc k) (r - 1) =
      (FailedResponse (failure ''cancelled''), replicate (Suc (n - Suc k)) args)"
    using Suc.prems Suc.hyps(2) less by (intro Suc.hyps(1)) auto
  moreover from less have "Suc (n - Suc k) = n - k" by arith
  ultimately show ?case
    by (metis fst_conv snd_conv replicate_Suc)
qed

lemma attempts_until_checked:
  assumes "\<forall>j. k \<le> j \<and> j < n \<longrightarrow> retryable t (send t j args)"
    and "k \<le> n" and "n - k \<le> r"
    and "argAbortSignal args = Some (FiresBeforeAttempt n)"
  shows "attempts t args k r = (FailedResponse (failure ''cancelled''), replicate (n - k) args)"
  using assms
proof (induction "n - k" arbitrary: k r)
  case 0
  then have "k = n" by simp
  with 0 show ?case
    by (simp add: attempts_fired firedBefore_def)
next
  case (Suc d)
  then have less: "k < n" and "0 < r" by auto
  with Suc.prems have "attempts t args k r =
      (fst (attempts t args (Suc k) (r - 1)), args # snd (attempts t args (Suc k) (r - 1)))"
    by (intro attempts_retry) (auto simp: firedBefore_def firesDuring_def)
  moreover have "attempts t args (Suc k) (r - 1) =
      (FailedResponse (failure ''cancelled''), replicate (n - Suc k) args)"
    using Suc.prems Suc.hyps(2) less by (intro Suc.hyps(1)) auto
  moreover from less have "Suc (n - Suc k) = n - k" by arith
  ultimately show ?case
    by (metis fst_conv snd_conv replicate_Suc)
qed

text \<open>No attempt starts after the token has fired.\<close>

lemma attempts_after_fired:
  "length (snd (attempts t args k r)) \<le>
     (case argAbortSignal args of
        Some (FiresBeforeAttempt n) \<Rightarrow> n - k
      | Some (FiresDuringAttempt n) \<Rightarrow> Suc n - k
      | _ \<Rightarrow> r + 1)"
proof (induction t args k r rule: attempts.induct)
  case (1 t args k retriesLeft)
  show ?case
  proof (cases "\<not> firedBefore (argAbortSignal args) k \<and> \<not> firesDuring (argAbortSignal args) k
                  \<and> retryable t (send t k args) \<and> 0 < retriesLeft")
    case True
    with 1 have "length (snd (attempts t args (Suc k) (retriesLeft - 1))) \<le>
     (case argAbortSignal args of
        Some (FiresBeforeAttempt n) \<Rightarrow> n - Suc k
      | Some (FiresDuringAttempt n) \<Rightarrow> Suc n - Suc k
      | _ \<Rightarrow> retriesLeft - 1 + 1)"
      by simp
    with True attempts_retry [of args k t retriesLeft] show ?thesis
      by (auto simp: firedBefore_def firesDuring_def split: option.splits AbortSignal.splits)
  next
    case False
    then show ?thesis
      by (subst attempts.simps)
         (auto simp: firedBefore_def firesDuring_def split: option.splits AbortSignal.splits)
  qed
qed



text \<open>
  Cancellation: when the token fires before attempt \<open>k\<close> starts or while it is in flight,
  no attempt starts after that; if the call is still running then (the earlier attempts
  failed retryably and \<open>k\<close> is within the retries allowed), the output is the failure of
  reason \<^verbatim>\<open>cancelled\<close> after the attempts started so far, whatever retries remain.
\<close>

lemma cancellation_stops_retries:
  assumes "argAbortSignal args = Some signal"
    and "signal = FiresBeforeAttempt k \<or> signal = FiresDuringAttempt k"
  shows "length (snd (executor t args)) \<le> started signal
       \<and> ((\<forall>j<k. retryable t (send t j args)) \<and> k \<le> effectiveMaxRetries t args \<longrightarrow>
            executor t args
              = (FailedResponse (failure ''cancelled''), replicate (started signal) args))"
proof (intro conjI impI)
  from attempts_after_fired [of t args 0 "effectiveMaxRetries t args"] assms
  show "length (snd (executor t args)) \<le> started signal"
    by (auto simp: executor_def started_def)
next
  assume reached: "(\<forall>j<k. retryable t (send t j args)) \<and> k \<le> effectiveMaxRetries t args"
  from assms(2) show
    "executor t args = (FailedResponse (failure ''cancelled''), replicate (started signal) args)"
  proof
    assume "signal = FiresBeforeAttempt k"
    with assms(1) reached
      attempts_until_checked [of 0 k t args "effectiveMaxRetries t args"]
    show ?thesis
      by (simp add: executor_def started_def)
  next
    assume "signal = FiresDuringAttempt k"
    with assms(1) reached
      attempts_until_fired [of 0 k t args "effectiveMaxRetries t args"]
    show ?thesis
      by (simp add: executor_def started_def)
  qed
qed



section \<open>Properties of the methods\<close>

text \<open>
  The \<^verbatim>\<open>Comet-Workspace\<close> entry of the header object: the entry of the caller when there is
  one, otherwise what the workspace supplier gives.
\<close>

lemma comet_workspace_entry:
  "requestHeaders (fetcherArgs imp opts requestOptions path) ''Comet-Workspace''
     = (case callerHeader requestOptions ''Comet-Workspace'' of
          None \<Rightarrow> Some (cometWorkspace opts)
        | Some v \<Rightarrow> Some (Some v))"
  by (auto simp: fetcherArgs_def headerObject_def getCustomAuthorizationHeaders_def
        spreadHeaders_def callerHeader_def map_add_def split: option.splits)

text \<open>A header that the request has is a header of the request that the fetcher is given.\<close>

lemma same_request:
  assumes "requestHeaders (fetcherArgs imp opts requestOptions path) key = Some v"
  shows "systemUsageMethod path imp opts fetch parseOrThrow requestOptions
           = handleResponse parseOrThrow path
               (fetch ((fetcherArgs imp opts requestOptions path)
                  \<lparr> requestHeaders :=
                      (requestHeaders (fetcherArgs imp opts requestOptions path))(key \<mapsto> v) \<rparr>))"
proof -
  from assms have
    "(requestHeaders (fetcherArgs imp opts requestOptions path))(key \<mapsto> v)
       = requestHeaders (fetcherArgs imp opts requestOptions path)"
    by (rule map_upd_triv)
  then show ?thesis
    by (simp add: systemUsageMethod_def)
qed

text \<open>
  A failure whose reason is none of the four that the method compares with falls through
  the \<^verbatim>\<open>if\<close> and the \<^verbatim>\<open>switch\<close>: the function of the method returns \<^verbatim>\<open>undefined\<close>.
\<close>

lemma unmatched_reason_falls_through:
  assumes "fetch (fetcherArgs imp opts requestOptions path) = FailedResponse err"
    and "reason err \<notin> {''status-code'', ''non-json'', ''timeout'', ''unknown''}"
  shows "systemUsageMethod path imp opts fetch parseOrThrow requestOptions = ReturnedUndefined"
  using assms by (simp add: systemUsageMethod_def handleResponse_def)

section \<open>The claims\<close>

subsection \<open>C1: how a failure of the executor reaches the caller\<close>



subsection \<open>C2: cancellation\<close>


subsection \<open>C3: the round trip\<close>

text \<open>
  Claim C3, as amended. For every schema that declares each key of an object once, and
  every value accepted by \<^verbatim>\<open>parse\<close> under fixed strictness flags, \<^verbatim>\<open>serialize\<close> under the
  same flags does not fail on the parsed value, in either mode of unrecognized object
  keys. It gives the value back in passthrough mode, and in strict mode when the value
  has no undeclared key at any depth.
\<close>

theorem serialize_after_parse:
  assumes "wellFormed schema"
    and "parse schema raw opts = Inr typed"
  shows "(\<exists>out. serialize schema typed opts = Inr out)
       \<and> (unrecognizedObjectKeys opts = Passthrough \<longrightarrow> serialize schema typed opts = Inr raw)
       \<and> (unrecognizedObjectKeys opts = Strict \<and> noUndeclaredKeys opts schema raw \<longrightarrow>
            serialize schema typed opts = Inr raw)"
proof -
  from assms parse_serialize(1) [of opts "breadcrumbsPrefix opts" schema raw typed]
  obtain out where out: "serialize schema typed opts = Inr out"
    and same: "whenStrict opts (noUndeclaredKeys opts schema raw) \<longrightarrow> out = raw"
    by (auto simp: parse_def serialize_def)
  from out have "\<exists>out. serialize schema typed opts = Inr out"
    by blast
  moreover from out same
  have "unrecognizedObjectKeys opts = Passthrough \<longrightarrow> serialize schema typed opts = Inr raw"
    by (simp add: whenStrict_def)
  moreover from out same
  have "unrecognizedObjectKeys opts = Strict \<and> noUndeclaredKeys opts schema raw \<longrightarrow>
          serialize schema typed opts = Inr raw"
    by (simp add: whenStrict_def)
  ultimately show ?thesis
    by blast
qed

text \<open>
  Two instances: a \<^verbatim>\<open>NumericalFeedbackDetailUpdate\<close> with an undeclared key in passthrough
  mode, and one without it in strict mode.
\<close>

theorem serialize_after_parse_witness:
  "wellFormed NumericalFeedbackDetailUpdate
   \<and> unrecognizedObjectKeys responseParseOptions = Passthrough
   \<and> parse NumericalFeedbackDetailUpdate annotatedDetail responseParseOptions
       = Inr (TObject (fmap_of_list [(''max'', TNumber 1), (''min'', TNumber 0)])
                (fmdrop_set {''max'', ''min''} (fmap_of_list
                   [(''max'', JNum 1), (''min'', JNum 0), (''note'', JStr ''x'')])))
   \<and> serialize NumericalFeedbackDetailUpdate
        (TObject (fmap_of_list [(''max'', TNumber 1), (''min'', TNumber 0)])
           (fmdrop_set {''max'', ''min''} (fmap_of_list
              [(''max'', JNum 1), (''min'', JNum 0), (''note'', JStr ''x'')])))
        responseParseOptions
       = Inr annotatedDetail
   \<and> unrecognizedObjectKeys strictOptions = Strict
   \<and> noUndeclaredKeys strictOptions NumericalFeedbackDetailUpdate plainDetail
   \<and> parse NumericalFeedbackDetailUpdate plainDetail strictOptions
       = Inr (TObject (fmap_of_list [(''max'', TNumber 1), (''min'', TNumber 0)]) fmempty)
   \<and> serialize NumericalFeedbackDetailUpdate
        (TObject (fmap_of_list [(''max'', TNumber 1), (''min'', TNumber 0)]) fmempty)
        strictOptions
       = Inr plainDetail"
proof -
  have wf: "wellFormed NumericalFeedbackDetailUpdate"
    by (simp add: NumericalFeedbackDetailUpdate_def)
  have mode: "unrecognizedObjectKeys responseParseOptions = Passthrough"
    by (simp add: responseParseOptions_def)
  have parsed: "parse NumericalFeedbackDetailUpdate annotatedDetail responseParseOptions
       = Inr (TObject (fmap_of_list [(''max'', TNumber 1), (''min'', TNumber 0)])
                (fmdrop_set {''max'', ''min''} (fmap_of_list
                   [(''max'', JNum 1), (''min'', JNum 0), (''note'', JStr ''x'')])))"
    by (simp add: parse_def NumericalFeedbackDetailUpdate_def annotatedDetail_def
          responseParseOptions_def fmlookup_of_list)
  have strict: "unrecognizedObjectKeys strictOptions = Strict"
    by (simp add: strictOptions_def)
  have declared: "noUndeclaredKeys strictOptions NumericalFeedbackDetailUpdate plainDetail"
    by (auto simp: NumericalFeedbackDetailUpdate_def plainDetail_def fmlookup_of_list
          fmdom'_alt_def fmlookup_dom_iff split: if_splits)
  have strictly: "parse NumericalFeedbackDetailUpdate plainDetail strictOptions
       = Inr (TObject (fmap_of_list [(''max'', TNumber 1), (''min'', TNumber 0)]) fmempty)"
    by (simp add: parse_def NumericalFeedbackDetailUpdate_def plainDetail_def
          strictOptions_def fmlookup_of_list)
  from serialize_after_parse [OF wf parsed] mode
  have one: "serialize NumericalFeedbackDetailUpdate
        (TObject (fmap_of_list [(''max'', TNumber 1), (''min'', TNumber 0)])
           (fmdrop_set {''max'', ''min''} (fmap_of_list
              [(''max'', JNum 1), (''min'', JNum 0), (''note'', JStr ''x'')])))
        responseParseOptions
       = Inr annotatedDetail"
    by blast
  from serialize_after_parse [OF wf strictly] strict declared
  have two: "serialize NumericalFeedbackDetailUpdate
        (TObject (fmap_of_list [(''max'', TNumber 1), (''min'', TNumber 0)]) fmempty)
        strictOptions
       = Inr plainDetail"
    by blast
  from wf mode parsed one strict declared strictly two show ?thesis
    by blast
qed

text \<open>
  The claim as first stated (every accepted value, under every strictness mode) fails in
  strict mode, where an undeclared key is accepted and dropped: the value written back
  lacks the key.
\<close>

theorem strict_roundtrip_drops_unknown_key:
  "parse NumericalFeedbackDetailUpdate annotatedDetail strictOptions
     = Inr (TObject (fmap_of_list [(''max'', TNumber 1), (''min'', TNumber 0)]) fmempty)
   \<and> serialize NumericalFeedbackDetailUpdate
       (TObject (fmap_of_list [(''max'', TNumber 1), (''min'', TNumber 0)]) fmempty) strictOptions
     = Inr (JObj (fmap_of_list [(''max'', JNum 1), (''min'', JNum 0)]))
   \<and> JObj (fmap_of_list [(''max'', JNum 1), (''min'', JNum 0)]) \<noteq> annotatedDetail"
proof -
  have "fmlookup (fmap_of_list [(''max'', JNum 1), (''min'', JNum 0)]) ''note''
          \<noteq> fmlookup (fmap_of_list [(''max'', JNum 1), (''min'', JNum 0), (''note'', JStr ''x'')]) ''note''"
    by (simp add: fmlookup_of_list)
  then have "fmap_of_list [(''max'', JNum 1), (''min'', JNum 0)]
          \<noteq> fmap_of_list [(''max'', JNum 1), (''min'', JNum 0), (''note'', JStr ''x'')]"
    by metis
  then show ?thesis
    by (simp add: parse_def serialize_def NumericalFeedbackDetailUpdate_def annotatedDetail_def
          strictOptions_def fmlookup_of_list)
qed

subsection \<open>C4: an unexpected enum value\<close>

text \<open>
  Claim C4. Parsing the string \<^verbatim>\<open>"unexpected"\<close> against \<^verbatim>\<open>DatasetItemSource\<close> with the
  breadcrumb prefix \<^verbatim>\<open>["response"]\<close> fails with one validation failure, at breadcrumb
  \<^verbatim>\<open>["response"]\<close>, when unrecognized enum values are not allowed, and succeeds with the
  string kept verbatim when they are allowed, as under the options of the methods of
  \<^verbatim>\<open>SystemUsage\<close>.
\<close>

theorem unexpected_DatasetItemSource:
  "parse DatasetItemSource (JStr ''unexpected'')
     (opts \<lparr> allowUnrecognizedEnumValues := False, breadcrumbsPrefix := [''response''] \<rparr>)
     = Inl [([''response''], ''unrecognized enum value'')]
   \<and> parse DatasetItemSource (JStr ''unexpected'')
     (opts \<lparr> allowUnrecognizedEnumValues := True, breadcrumbsPrefix := [''response''] \<rparr>)
     = Inr (TEnum ''unexpected'')
   \<and> parse DatasetItemSource (JStr ''unexpected'') responseParseOptions = Inr (TEnum ''unexpected'')"
  by (simp add: parse_def DatasetItemSource_def responseParseOptions_def)

subsection \<open>C5: bounded retries\<close>



subsection \<open>C6: the timeout\<close>

text \<open>
  Claim C6. A method calls the fetcher with a request whose \<^verbatim>\<open>timeoutMs\<close> is
  \<^verbatim>\<open>timeoutInSeconds * 1000\<close>, the product as the language computes it, when the caller
  gives \<^verbatim>\<open>timeoutInSeconds\<close>, and 60000 when the caller gives none, or no request options
  at all.
\<close>

theorem timeout_in_milliseconds:
  "timeoutMs (fetcherArgs imp opts (Some (ro \<lparr> timeoutInSeconds := Some t \<rparr>)) path)
     = multiply imp t (numberOf imp 1000)
   \<and> systemUsageMethod path imp opts fetch parseOrThrow (Some (ro \<lparr> timeoutInSeconds := Some t \<rparr>))
     = handleResponse parseOrThrow path
         (fetch ((fetcherArgs imp opts (Some (ro \<lparr> timeoutInSeconds := Some t \<rparr>)) path)
            \<lparr> timeoutMs := multiply imp t (numberOf imp 1000) \<rparr>))
   \<and> timeoutMs (fetcherArgs imp opts (Some (ro \<lparr> timeoutInSeconds := None \<rparr>)) path)
     = numberOf imp 60000
   \<and> systemUsageMethod path imp opts fetch parseOrThrow (Some (ro \<lparr> timeoutInSeconds := None \<rparr>))
     = handleResponse parseOrThrow path
         (fetch ((fetcherArgs imp opts (Some (ro \<lparr> timeoutInSeconds := None \<rparr>)) path)
            \<lparr> timeoutMs := numberOf imp 60000 \<rparr>))
   \<and> timeoutMs (fetcherArgs imp opts None path) = numberOf imp 60000
   \<and> systemUsageMethod path imp opts fetch parseOrThrow None
     = handleResponse parseOrThrow path
         (fetch ((fetcherArgs imp opts None path) \<lparr> timeoutMs := numberOf imp 60000 \<rparr>))"
  by (simp add: fetcherArgs_def systemUsageMethod_def)

subsection \<open>C7: the default environment\<close>

text \<open>
  Claim C7. When the environment supplier resolves to an absent value, the URL of the
  request is \<^verbatim>\<open>OpikApiEnvironment.Default\<close> joined with the path of the endpoint, and the
  method goes on to the fetcher with that request: nothing is raised on the way.
\<close>

theorem default_environment:
  assumes "environment opts 0 = None"
  shows "url (fetcherArgs imp opts requestOptions path)
           = urlJoin imp (OpikApiEnvironment_Default imp) path
       \<and> systemUsageMethod path imp opts fetch parseOrThrow requestOptions
           = handleResponse parseOrThrow path
               (fetch ((fetcherArgs imp opts requestOptions path)
                  \<lparr> url := urlJoin imp (OpikApiEnvironment_Default imp) path \<rparr>))"
  using assms by (simp add: fetcherArgs_def systemUsageMethod_def)

text \<open>An instance: no environment configured.\<close>

theorem default_environment_witness:
  "environment exampleOptions 0 = None \<and>
   url (fetcherArgs exampleImports exampleOptions (None :: (unit, nat) RequestOptions option)
          ''v1/internal/usage/bi-datasets'')
     = ''http://localhost:5173/api/v1/internal/usage/bi-datasets''"
proof -
  have absent: "environment exampleOptions 0 = None"
    by (simp add: exampleOptions_def)
  from default_environment
         [OF absent, where imp = exampleImports
            and requestOptions = "None :: (unit, nat) RequestOptions option"
            and path = "''v1/internal/usage/bi-datasets''"
            and fetch = "\<lambda>args. FailedResponse notFound" and parseOrThrow = acceptAny]
  show ?thesis
    using absent by (simp add: exampleImports_def)
qed

subsection \<open>C8: the workspace header\<close>

text \<open>
  Claim C8, as amended. In a call whose request options have no \<^verbatim>\<open>Comet-Workspace\<close>
  header of their own: when the workspace supplier resolves to an absent value, the method
  calls the fetcher, nothing raised, with a request whose \<^verbatim>\<open>Comet-Workspace\<close> entry is
  \<^verbatim>\<open>undefined\<close>; when it resolves to a string (at both resolutions that the method makes),
  the method calls the fetcher with that string as the entry. In a call whose request
  options have a \<^verbatim>\<open>Comet-Workspace\<close> header, the method calls the fetcher with that header
  as the entry, whatever the supplier gives.
\<close>

theorem comet_workspace_header:
  "(callerHeader requestOptions ''Comet-Workspace'' = None \<and> workspaceName opts 0 = None \<longrightarrow>
      requestHeaders (fetcherArgs imp opts requestOptions path) ''Comet-Workspace'' = Some None
      \<and> systemUsageMethod path imp opts fetch parseOrThrow requestOptions
          = handleResponse parseOrThrow path
              (fetch ((fetcherArgs imp opts requestOptions path)
                 \<lparr> requestHeaders :=
                     (requestHeaders (fetcherArgs imp opts requestOptions path))
                       (''Comet-Workspace'' \<mapsto> None) \<rparr>)))
   \<and> (callerHeader requestOptions ''Comet-Workspace'' = None \<and>
      workspaceName opts 0 = Some name \<and> workspaceName opts 1 = Some name \<longrightarrow>
      requestHeaders (fetcherArgs imp opts requestOptions path) ''Comet-Workspace''
        = Some (Some name)
      \<and> systemUsageMethod path imp opts fetch parseOrThrow requestOptions
          = handleResponse parseOrThrow path
              (fetch ((fetcherArgs imp opts requestOptions path)
                 \<lparr> requestHeaders :=
                     (requestHeaders (fetcherArgs imp opts requestOptions path))
                       (''Comet-Workspace'' \<mapsto> Some name) \<rparr>)))
   \<and> (callerHeader requestOptions ''Comet-Workspace'' = Some other \<longrightarrow>
      requestHeaders (fetcherArgs imp opts requestOptions path) ''Comet-Workspace''
        = Some (Some other)
      \<and> systemUsageMethod path imp opts fetch parseOrThrow requestOptions
          = handleResponse parseOrThrow path
              (fetch ((fetcherArgs imp opts requestOptions path)
                 \<lparr> requestHeaders :=
                     (requestHeaders (fetcherArgs imp opts requestOptions path))
                       (''Comet-Workspace'' \<mapsto> Some other) \<rparr>)))"
proof (intro conjI impI)
  assume "callerHeader requestOptions ''Comet-Workspace'' = None \<and> workspaceName opts 0 = None"
  then show unset:
    "requestHeaders (fetcherArgs imp opts requestOptions path) ''Comet-Workspace'' = Some None"
    using comet_workspace_entry [of imp opts requestOptions path]
    by (simp add: cometWorkspace_def)
  show "systemUsageMethod path imp opts fetch parseOrThrow requestOptions
          = handleResponse parseOrThrow path
              (fetch ((fetcherArgs imp opts requestOptions path)
                 \<lparr> requestHeaders :=
                     (requestHeaders (fetcherArgs imp opts requestOptions path))
                       (''Comet-Workspace'' \<mapsto> None) \<rparr>))"
    by (rule same_request [OF unset])
next
  assume "callerHeader requestOptions ''Comet-Workspace'' = None \<and>
      workspaceName opts 0 = Some name \<and> workspaceName opts 1 = Some name"
  then show named:
    "requestHeaders (fetcherArgs imp opts requestOptions path) ''Comet-Workspace''
       = Some (Some name)"
    using comet_workspace_entry [of imp opts requestOptions path]
    by (simp add: cometWorkspace_def)
  show "systemUsageMethod path imp opts fetch parseOrThrow requestOptions
          = handleResponse parseOrThrow path
              (fetch ((fetcherArgs imp opts requestOptions path)
                 \<lparr> requestHeaders :=
                     (requestHeaders (fetcherArgs imp opts requestOptions path))
                       (''Comet-Workspace'' \<mapsto> Some name) \<rparr>))"
    by (rule same_request [OF named])
next
  assume "callerHeader requestOptions ''Comet-Workspace'' = Some other"
  then show replaced:
    "requestHeaders (fetcherArgs imp opts requestOptions path) ''Comet-Workspace''
       = Some (Some other)"
    using comet_workspace_entry [of imp opts requestOptions path]
    by simp
  show "systemUsageMethod path imp opts fetch parseOrThrow requestOptions
          = handleResponse parseOrThrow path
              (fetch ((fetcherArgs imp opts requestOptions path)
                 \<lparr> requestHeaders :=
                     (requestHeaders (fetcherArgs imp opts requestOptions path))
                       (''Comet-Workspace'' \<mapsto> Some other) \<rparr>))"
    by (rule same_request [OF replaced])
qed

text \<open>
  Three instances: no workspace configured, the workspace \<^verbatim>\<open>ws1\<close>, and the workspace
  \<^verbatim>\<open>ws1\<close> with the header \<^verbatim>\<open>ws2\<close> passed with the call.
\<close>

theorem comet_workspace_header_witness:
  "requestHeaders
     (fetcherArgs exampleImports (exampleOptions \<lparr> workspaceName := (\<lambda>k. None) \<rparr>)
        (None :: (unit, nat) RequestOptions option) ''v1/internal/usage/bi-datasets'')
     ''Comet-Workspace'' = Some None
   \<and> requestHeaders
       (fetcherArgs exampleImports exampleOptions
          (None :: (unit, nat) RequestOptions option) ''v1/internal/usage/bi-datasets'')
       ''Comet-Workspace'' = Some (Some ''ws1'')
   \<and> requestHeaders
       (fetcherArgs exampleImports exampleOptions
          (Some ((noRequestOptions :: (unit, nat) RequestOptions)
             \<lparr> headers := Some [''Comet-Workspace'' \<mapsto> ''ws2''] \<rparr>))
          ''v1/internal/usage/bi-datasets'')
       ''Comet-Workspace'' = Some (Some ''ws2'')"
proof -
  let ?none = "None :: (unit, nat) RequestOptions option"
  let ?own = "Some ((noRequestOptions :: (unit, nat) RequestOptions)
                \<lparr> headers := Some [''Comet-Workspace'' \<mapsto> ''ws2''] \<rparr>)"
  have untouched: "callerHeader ?none ''Comet-Workspace'' = None"
    by (simp add: callerHeader_def)
  have own: "callerHeader ?own ''Comet-Workspace'' = Some ''ws2''"
    by (simp add: callerHeader_def noRequestOptions_def)
  have absent: "workspaceName (exampleOptions \<lparr> workspaceName := (\<lambda>k. None) \<rparr>) 0 = None"
    by simp
  have named: "workspaceName exampleOptions 0 = Some ''ws1'' \<and> workspaceName exampleOptions 1 = Some ''ws1''"
    by (simp add: exampleOptions_def)
  from comet_workspace_header
         [where requestOptions = ?none
            and opts = "exampleOptions \<lparr> workspaceName := (\<lambda>k. None) \<rparr>"
            and imp = exampleImports and path = "''v1/internal/usage/bi-datasets''"
            and name = "''ws1''" and other = "''ws2''"
            and fetch = "\<lambda>args. FailedResponse notFound" and parseOrThrow = acceptAny]
       untouched absent
  have first: "requestHeaders
      (fetcherArgs exampleImports (exampleOptions \<lparr> workspaceName := (\<lambda>k. None) \<rparr>)
        ?none ''v1/internal/usage/bi-datasets'') ''Comet-Workspace'' = Some None"
    by blast
  from comet_workspace_header
         [where requestOptions = ?none and opts = exampleOptions
            and imp = exampleImports and path = "''v1/internal/usage/bi-datasets''"
            and name = "''ws1''" and other = "''ws2''"
            and fetch = "\<lambda>args. FailedResponse notFound" and parseOrThrow = acceptAny]
       untouched named
  have second: "requestHeaders
      (fetcherArgs exampleImports exampleOptions ?none ''v1/internal/usage/bi-datasets'')
      ''Comet-Workspace'' = Some (Some ''ws1'')"
    by blast
  from comet_workspace_header
         [where requestOptions = ?own and opts = exampleOptions
            and imp = exampleImports and path = "''v1/internal/usage/bi-datasets''"
            and name = "''ws1''" and other = "''ws2''"
            and fetch = "\<lambda>args. FailedResponse notFound" and parseOrThrow = acceptAny]
       own
  have third: "requestHeaders
      (fetcherArgs exampleImports exampleOptions ?own ''v1/internal/usage/bi-datasets'')
      ''Comet-Workspace'' = Some (Some ''ws2'')"
    by blast
  from first second third show ?thesis
    by simp
qed

text \<open>
  The claim as first stated (for every call the string of the supplier is sent) fails
  when the caller passes a \<^verbatim>\<open>Comet-Workspace\<close> header with the call: that one is sent.
\<close>

theorem request_headers_replace_workspace:
  "workspaceName exampleOptions 0 = Some ''ws1'' \<and> workspaceName exampleOptions 1 = Some ''ws1''
   \<and> requestHeaders
        (fetcherArgs exampleImports exampleOptions
           (Some ((noRequestOptions :: (unit, nat) RequestOptions)
              \<lparr> headers := Some [''Comet-Workspace'' \<mapsto> ''ws2''] \<rparr>))
           ''v1/internal/usage/bi-datasets'')
        ''Comet-Workspace''
      = Some (Some ''ws2'')"
  by (simp add: fetcherArgs_def headerObject_def spreadHeaders_def getCustomAuthorizationHeaders_def
        exampleOptions_def noRequestOptions_def)

subsection \<open>C9: breadcrumbs and strictness flags\<close>

text \<open>
  Claim C9, as amended. A validation failure is never empty, and each of its breadcrumbs
  is the breadcrumb prefix of the call followed by the path, from the root of the document,
  to an offending field; so a breadcrumb is empty only for a fault of the root itself under
  an empty prefix. For a method of \<^verbatim>\<open>SystemUsage\<close>, whose call site fixes the prefix to
  \<^verbatim>\<open>["response"]\<close>, every breadcrumb of a failure raised from parsing the response is
  \<^verbatim>\<open>response\<close> followed by such a path in the body. The flags of the call apply to the
  whole document: \<^verbatim>\<open>parse\<close> accepts exactly the values that conform to the schema under
  those flags at every node, a method returns a value exactly for the bodies that conform
  under the flags of its call site, and, for a schema that declares each key once, the
  body of a value that a method returns can be written back in full, the unknown keys of
  every object included.
\<close>

theorem breadcrumbs_identify_fields:
  "(parse schema raw opts = Inl errs \<longrightarrow>
      errs \<noteq> [] \<and>
      (\<forall>e \<in> set errs.
         (\<exists>path. fst e = breadcrumbsPrefix opts @ path \<and> faultAt opts schema raw path) \<and>
         (fst e = [] \<longrightarrow> breadcrumbsPrefix opts = [] \<and> rejects opts schema raw)))
   \<and> (systemUsageMethod endpoint imp clientOptions (\<lambda>args. SuccessfulResponse body hdrs)
        (parse schema) requestOptions = Thrown (ParseError errs) \<longrightarrow>
      errs \<noteq> [] \<and>
      (\<forall>e \<in> set errs.
         \<exists>path. fst e = ''response'' # path \<and> faultAt responseParseOptions schema body path))
   \<and> ((\<exists>typed. parse schema raw opts = Inr typed) \<longleftrightarrow> conforms opts schema raw)
   \<and> ((\<exists>typed. systemUsageMethod endpoint imp clientOptions
                  (\<lambda>args. SuccessfulResponse body hdrs) (parse schema) requestOptions
                = Returned True typed hdrs)
        \<longleftrightarrow> conforms responseParseOptions schema body)
   \<and> (wellFormed schema \<and>
      systemUsageMethod endpoint imp clientOptions (\<lambda>args. SuccessfulResponse body hdrs)
        (parse schema) requestOptions = Returned ok typed hdrs' \<longrightarrow>
      serialize schema typed responseParseOptions = Inr body)"
proof (intro conjI impI)
  assume failed: "parse schema raw opts = Inl errs"
  then show "errs \<noteq> []"
    using parse_errors_nonempty [of opts "breadcrumbsPrefix opts" schema raw]
    by (auto simp: parse_def)
  from failed have located:
    "\<forall>e \<in> set errs. \<exists>path. fst e = breadcrumbsPrefix opts @ path \<and> faultAt opts schema raw path"
    unfolding parse_def by (rule parse_faults(1))
  show "\<forall>e \<in> set errs.
         (\<exists>path. fst e = breadcrumbsPrefix opts @ path \<and> faultAt opts schema raw path) \<and>
         (fst e = [] \<longrightarrow> breadcrumbsPrefix opts = [] \<and> rejects opts schema raw)"
  proof
    fix e assume "e \<in> set errs"
    with located obtain path
      where path: "fst e = breadcrumbsPrefix opts @ path" "faultAt opts schema raw path"
      by blast
    then have "fst e = [] \<longrightarrow> breadcrumbsPrefix opts = [] \<and> rejects opts schema raw"
      by auto
    with path show
      "(\<exists>path. fst e = breadcrumbsPrefix opts @ path \<and> faultAt opts schema raw path) \<and>
       (fst e = [] \<longrightarrow> breadcrumbsPrefix opts = [] \<and> rejects opts schema raw)"
      by blast
  qed
next
  assume thrown: "systemUsageMethod endpoint imp clientOptions (\<lambda>args. SuccessfulResponse body hdrs)
        (parse schema) requestOptions = Thrown (ParseError errs)"
  then have failed:
    "parseAt responseParseOptions (breadcrumbsPrefix responseParseOptions) schema body = Inl errs"
    by (simp add: systemUsageMethod_def handleResponse_def parse_def split: sum.splits)
  then show "errs \<noteq> []"
    using parse_errors_nonempty [of responseParseOptions
            "breadcrumbsPrefix responseParseOptions" schema body]
    by auto
  from parse_faults(1) [OF failed]
  show "\<forall>e \<in> set errs.
         \<exists>path. fst e = ''response'' # path \<and> faultAt responseParseOptions schema body path"
    by (simp add: responseParseOptions_def)
next
  show "(\<exists>typed. parse schema raw opts = Inr typed) \<longleftrightarrow> conforms opts schema raw"
    unfolding parse_def by (rule parse_accepts)
next
  have "(\<exists>typed. systemUsageMethod endpoint imp clientOptions
                  (\<lambda>args. SuccessfulResponse body hdrs) (parse schema) requestOptions
                = Returned True typed hdrs)
        \<longleftrightarrow> (\<exists>typed. parseAt responseParseOptions (breadcrumbsPrefix responseParseOptions)
                         schema body = Inr typed)"
    by (auto simp: systemUsageMethod_def handleResponse_def parse_def split: sum.splits)
  then show "(\<exists>typed. systemUsageMethod endpoint imp clientOptions
                  (\<lambda>args. SuccessfulResponse body hdrs) (parse schema) requestOptions
                = Returned True typed hdrs)
        \<longleftrightarrow> conforms responseParseOptions schema body"
    by (simp only: parse_accepts)
next
  assume "wellFormed schema \<and>
      systemUsageMethod endpoint imp clientOptions (\<lambda>args. SuccessfulResponse body hdrs)
        (parse schema) requestOptions = Returned ok typed hdrs'"
  then have wf: "wellFormed schema" and
    "parseAt responseParseOptions (breadcrumbsPrefix responseParseOptions) schema body = Inr typed"
    by (auto simp: systemUsageMethod_def handleResponse_def parse_def split: sum.splits)
  from parse_serialize(1) [OF this(2) wf]
  show "serialize schema typed responseParseOptions = Inr body"
    by (auto simp: serialize_def whenStrict_def responseParseOptions_def)
qed

text \<open>
  Three instances: a body two levels deep whose second list item has a string for \<^verbatim>\<open>max\<close>
  and no \<^verbatim>\<open>min\<close>, both reported in one pass, while its enum value outside the closed set
  is let through; a body with such an enum value and an undeclared key in a list item,
  returned and written back in full; and the root failure of the example below.
\<close>

theorem breadcrumbs_identify_fields_witness:
  "getTracesCountForWorkspaces exampleImports exampleOptions
        (\<lambda>args :: (unit, nat) FetcherArgs. SuccessfulResponse brokenReport Map.empty)
        (parse sourcedDetails) None
     = Thrown (ParseError
         [([''response'', ''details'', ''1'', ''max''], ''expected a number''),
          ([''response'', ''details'', ''1'', ''min''], ''missing required key'')])
   \<and> faultAt responseParseOptions sourcedDetails brokenReport [''details'', ''1'', ''max'']
   \<and> faultAt responseParseOptions sourcedDetails brokenReport [''details'', ''1'', ''min'']
   \<and> \<not> conforms responseParseOptions sourcedDetails brokenReport
   \<and> conforms responseParseOptions sourcedDetails annotatedReport
   \<and> (\<exists>typed.
        getTracesCountForWorkspaces exampleImports exampleOptions
          (\<lambda>args :: (unit, nat) FetcherArgs. SuccessfulResponse annotatedReport Map.empty)
          (parse sourcedDetails) None
        = Returned True typed Map.empty
        \<and> serialize sourcedDetails typed responseParseOptions = Inr annotatedReport)
   \<and> rejects strictOptions DatasetItemSource (JStr ''unexpected'')"
proof -
  let ?errs = "[([''response'', ''details'', ''1'', ''max''], ''expected a number''),
                ([''response'', ''details'', ''1'', ''min''], ''missing required key'')]"
  let ?none = "None :: (unit, nat) RequestOptions option"
  let ?endpoint = "''v1/internal/usage/workspace-trace-counts''"
  note failed = brokenReport_parse
  then have thrown: "systemUsageMethod ?endpoint exampleImports exampleOptions
        (\<lambda>args :: (unit, nat) FetcherArgs. SuccessfulResponse brokenReport Map.empty)
        (parse sourcedDetails) ?none = Thrown (ParseError ?errs)"
    by (simp add: systemUsageMethod_def handleResponse_def)
  note broken = breadcrumbs_identify_fields
         [where schema = sourcedDetails and raw = brokenReport
            and opts = responseParseOptions and errs = ?errs
            and endpoint = ?endpoint
            and imp = exampleImports and clientOptions = exampleOptions
            and body = brokenReport and hdrs = Map.empty
            and requestOptions = ?none
            and ok = True and typed = "TString []" and hdrs' = Map.empty]
  from broken thrown
  have "\<forall>e \<in> set ?errs.
         \<exists>path. fst e = ''response'' # path \<and> faultAt responseParseOptions sourcedDetails brokenReport path"
    by blast
  then have faults:
    "faultAt responseParseOptions sourcedDetails brokenReport [''details'', ''1'', ''max'']"
    "faultAt responseParseOptions sourcedDetails brokenReport [''details'', ''1'', ''min'']"
    by simp_all
  from failed have "\<not> (\<exists>typed. parse sourcedDetails brokenReport responseParseOptions = Inr typed)"
    by simp
  with broken have refused: "\<not> conforms responseParseOptions sourcedDetails brokenReport"
    by blast
  from annotatedReport_parse obtain typed
    where parsed: "parse sourcedDetails annotatedReport responseParseOptions = Inr typed"
    by blast
  then have returned: "systemUsageMethod ?endpoint exampleImports exampleOptions
        (\<lambda>args :: (unit, nat) FetcherArgs. SuccessfulResponse annotatedReport Map.empty)
        (parse sourcedDetails) ?none = Returned True typed Map.empty"
    by (simp add: systemUsageMethod_def handleResponse_def)
  note annotated = breadcrumbs_identify_fields
         [where schema = sourcedDetails and raw = annotatedReport
            and opts = responseParseOptions and errs = ?errs
            and endpoint = ?endpoint
            and imp = exampleImports and clientOptions = exampleOptions
            and body = annotatedReport and hdrs = Map.empty
            and requestOptions = ?none
            and ok = True and typed = typed and hdrs' = Map.empty]
  from annotated parsed
  have accepted: "conforms responseParseOptions sourcedDetails annotatedReport"
    by blast
  from annotated returned sourcedDetails_wellFormed
  have written: "serialize sourcedDetails typed responseParseOptions = Inr annotatedReport"
    by blast
  have root: "parse DatasetItemSource (JStr ''unexpected'') strictOptions
     = Inl [([], ''unrecognized enum value'')]"
    by (simp add: parse_def DatasetItemSource_def strictOptions_def)
  from breadcrumbs_identify_fields
         [where schema = DatasetItemSource and raw = "JStr ''unexpected''"
            and opts = strictOptions and errs = "[([], ''unrecognized enum value'')]"
            and endpoint = ?endpoint
            and imp = exampleImports and clientOptions = exampleOptions
            and body = brokenReport and hdrs = Map.empty
            and requestOptions = ?none
            and ok = True and typed = "TString []" and hdrs' = Map.empty]
       root
  have atRoot: "rejects strictOptions DatasetItemSource (JStr ''unexpected'')"
    by simp
  from thrown faults refused accepted returned written atRoot show ?thesis
    by (auto simp: getTracesCountForWorkspaces_def)
qed

text \<open>
  The claim as first stated (every validation failure has a non-empty breadcrumb) fails
  for a failure at the root of a document parsed with an empty breadcrumb prefix.
\<close>

theorem root_failure_has_empty_breadcrumb:
  "parse DatasetItemSource (JStr ''unexpected'') strictOptions
     = Inl [([], ''unrecognized enum value'')]"
  by (simp add: parse_def DatasetItemSource_def strictOptions_def)

end
